theory Spec2Isabelle
  imports Main
begin

section \<open>Data model of rps\_app.py\<close>

text \<open>
  Python \<open>bytes\<close> and \<open>str\<close> values are both lists of \<open>char\<close>. Optional attributes of
  \<open>App\<close> (initialised to \<open>None\<close>) are options. An exception is a value that carries the
  state reached when it was raised, because the Tk main loop reports an exception of a
  callback and goes on with the attributes as they are. Creating a socket and sending on
  it are taken to succeed; what \<open>bind\<close>, \<open>accept\<close>, \<open>connect\<close>, \<open>recv\<close> and
  \<open>recvfrom\<close> do is an input of the model.
\<close>

type_synonym bytes = string

datatype error = KeyError | TypeError | UnicodeDecodeError | OSError

record profile =
  username :: string
  password :: string
  avatar :: string
  wins :: int
  loses :: int
  ties :: int

datatype sock = Server_client_socket | Client_socket | Server_socket | Udp_socket

text \<open>
  The texts handed to the widgets, one constructor for each f-string of the source, with the
  values it interpolates. \<open>Ascii_art\<close> is the value of \<open>Gui.ascii_results\<close>.
\<close>

datatype gui_text =
    Waiting_for "string option"
  | Has_chosen "string option"
  | Ascii_art "(string \<times> string) option"
  | Round_banner int int
  | Versus_banner string "string option" int "int option"
  | Dropped_out "string option" int
  | You_dropped_out int
  | Rounds_completed
  | Chat_text string
  | Connection_successful string string
  | Connection_terminated

text \<open>The callbacks that the worker threads hand to the main loop with \<open>gui.after(0, ...)\<close>.\<close>

datatype callback =
    Cb_network_connected string
  | Cb_network_disconnected
  | Cb_dropout_resolution string
  | Cb_network_chat gui_text string
  | Cb_determine_results
  | Cb_launch_server

text \<open>What the program does to the sockets and the widgets, in the order it does it.\<close>

datatype effect =
    Send sock bytes
  | Send_to bytes "string option \<times> int"
  | Close sock
  | Main_textbox gui_text string
  | Status_textbox gui_text
  | Stats_label int int int
  | Game_state string
  | Lobby_state string
  | Messagebox string
  | Save_profile_stats
  | Gui_destroy
  | Show_login_screen

record app =
  user_profile :: "profile option"
  opponent_username :: "string option"
  player_choice :: "string option"
  opponent_choice :: "string option"
  total_rounds :: "int option"
  current_round :: "int option"
  broadcast_thread_alive :: bool
  server_thread_alive :: bool
  client_thread_alive :: bool
  allow_gui_update :: bool
  client_connected :: bool
  local_ip :: string
  broadcast_address :: "string option"
  server_port :: int
  broadcast_port :: int
  game_rps_button_state :: string
  after_queue :: "callback list"
  trace :: "effect list"

type_synonym res = "(error \<times> app) + app"

definition emit :: "effect \<Rightarrow> app \<Rightarrow> app" where
  "emit e s = s\<lparr>trace := trace s @ [e]\<rparr>"

definition schedule :: "callback \<Rightarrow> app \<Rightarrow> app" where
  "schedule cb s = s\<lparr>after_queue := after_queue s @ [cb]\<rparr>"

definition state_of :: "res \<Rightarrow> app" where
  "state_of r = (case r of Inl (e, s) \<Rightarrow> s | Inr s \<Rightarrow> s)"

text \<open>Truth values of Python: \<open>None\<close>, the empty string and \<open>0\<close> are false.\<close>

definition truthy_str :: "string option \<Rightarrow> bool" where
  "truthy_str v = (case v of None \<Rightarrow> False | Some x \<Rightarrow> x \<noteq> [])"

definition truthy_int :: "int option \<Rightarrow> bool" where
  "truthy_int v = (case v of None \<Rightarrow> False | Some n \<Rightarrow> n \<noteq> 0)"

section \<open>Gui\<close>

text \<open>\<open>Gui.update_game_state\<close>: the choice button is enabled or disabled with the frame.\<close>

definition update_game_state :: "string \<Rightarrow> app \<Rightarrow> app" where
  "update_game_state st s =
     (if st = ''normal'' then emit (Game_state st) (s\<lparr>game_rps_button_state := ''normal''\<rparr>)
      else if st = ''disabled'' then emit (Game_state st) (s\<lparr>game_rps_button_state := ''disabled''\<rparr>)
      else s)"

definition update_lobby_state :: "string \<Rightarrow> app \<Rightarrow> app" where
  "update_lobby_state st s =
     (if st = ''normal'' \<or> st = ''disabled'' then emit (Lobby_state st) s else s)"

text \<open>\<open>Gui.ascii_results\<close>: \<open>outcomes.get((player, opponent))\<close> over the nine pairs.\<close>

definition ascii_results :: "string \<Rightarrow> string \<Rightarrow> (string \<times> string) option" where
  "ascii_results player opponent =
     (if (player, opponent) \<in> set
          [(''Rock'', ''Scissors''), (''Rock'', ''Paper''), (''Rock'', ''Rock''),
           (''Paper'', ''Rock''), (''Paper'', ''Scissors''), (''Paper'', ''Paper''),
           (''Scissors'', ''Paper''), (''Scissors'', ''Rock''), (''Scissors'', ''Scissors'')]
      then Some (player, opponent) else None)"

section \<open>Server.stop and Client.stop\<close>

definition server_stop :: "string \<Rightarrow> app \<Rightarrow> app" where
  "server_stop game_state s =
     (if client_connected s then emit (Send Server_client_socket (''DISCONNECT'' @ game_state)) s
      else emit (Close Server_socket) s)"

definition client_stop :: "string \<Rightarrow> app \<Rightarrow> app" where
  "client_stop game_state s = emit (Send Client_socket (''DISCONNECT'' @ game_state)) s"

definition stop_listen :: "app \<Rightarrow> app" where
  "stop_listen s = emit (Send_to ''DISCONNECT'' (Some (local_ip s), broadcast_port s)) s"

section \<open>App: the round engine\<close>

definition and_then :: "res \<Rightarrow> (app \<Rightarrow> res) \<Rightarrow> res" where
  "and_then r f = (case r of Inl x \<Rightarrow> Inl x | Inr s \<Rightarrow> f s)"

definition update_profile_stats :: "app \<Rightarrow> res" where
  "update_profile_stats s =
     (case user_profile s of
        None \<Rightarrow> Inl (TypeError, s)
      | Some p \<Rightarrow> Inr (emit (Stats_label (wins p) (loses p) (ties p)) s))"

definition network_chat :: "gui_text \<Rightarrow> string \<Rightarrow> app \<Rightarrow> app" where
  "network_chat msg type s = emit (Main_textbox msg type) s"

text \<open>The dictionary \<open>choices\<close> of \<open>determine_results\<close>; a missing key (also \<open>None\<close>) raises.\<close>

definition choices :: "string \<rightharpoonup> int" where
  "choices = map_of [(''Rock'', 0), (''Paper'', 1), (''Scissors'', 2)]"

definition choices_item :: "string option \<Rightarrow> int option" where
  "choices_item k = (case k of None \<Rightarrow> None | Some c \<Rightarrow> choices c)"

text \<open>
  \<open>determine_results\<close> in its two halves: the scoring, up to the line that shows the
  result, and the step to the next round, from \<open>if self.current_round < self.total_rounds\<close>.
\<close>

definition score_round :: "app \<Rightarrow> res" where
  "score_round s =
     (case choices_item (player_choice s) of
        None \<Rightarrow> Inl (KeyError, s)
      | Some a \<Rightarrow>
     (case choices_item (opponent_choice s) of
        None \<Rightarrow> Inl (KeyError, s)
      | Some b \<Rightarrow>
     (case user_profile s of
        None \<Rightarrow> Inl (TypeError, s)
      | Some p \<Rightarrow>
          (let result = (a - b) mod 3;
               p' = (if result = 0 then p\<lparr>ties := ties p + 1\<rparr>
                     else if result = 1 then p\<lparr>wins := wins p + 1\<rparr>
                     else p\<lparr>loses := loses p + 1\<rparr>)
           in and_then (update_profile_stats (s\<lparr>user_profile := Some p'\<rparr>))
                (\<lambda>s1. Inr (network_chat
                   (Ascii_art (case (player_choice s1, opponent_choice s1) of
                                 (Some pc, Some oc) \<Rightarrow> ascii_results pc oc
                               | _ \<Rightarrow> None))
                   ''system_chat'' s1))))))"

definition next_round :: "app \<Rightarrow> res" where
  "next_round s =
     (case (current_round s, total_rounds s) of
        (Some c, Some t) \<Rightarrow>
          (if c < t then
             Inr ((emit (Main_textbox (Round_banner (c + 1) t) ''system_chat'')
                    (s\<lparr>current_round := Some (c + 1)\<rparr>))
                  \<lparr>game_rps_button_state := ''normal'',
                   player_choice := None, opponent_choice := None\<rparr>)
           else if server_thread_alive s then Inr (server_stop ''game_complete'' s)
           else Inr s)
      | _ \<Rightarrow> Inl (TypeError, s))"

definition determine_results :: "app \<Rightarrow> res" where
  "determine_results s = and_then (score_round s) next_round"

definition dropout_resolution :: "string \<Rightarrow> app \<Rightarrow> res" where
  "dropout_resolution actor s =
     (case (current_round s, total_rounds s) of
        (Some c, Some t) \<Rightarrow>
          (let rounds = t - (c - 1) in
           if actor = ''player'' then
             (case user_profile s of
                None \<Rightarrow> Inl (TypeError, s)
              | Some p \<Rightarrow>
                  update_profile_stats
                    (emit (Main_textbox (Dropped_out (opponent_username s) rounds) ''system_chat'')
                       (s\<lparr>user_profile := Some (p\<lparr>wins := wins p + rounds\<rparr>)\<rparr>)))
           else if actor = ''quitter'' then
             (case user_profile s of
                None \<Rightarrow> Inl (TypeError, s)
              | Some p \<Rightarrow>
                  update_profile_stats
                    (emit (Main_textbox (You_dropped_out rounds) ''system_chat'')
                       (s\<lparr>user_profile := Some (p\<lparr>loses := loses p + rounds\<rparr>)\<rparr>)))
           else Inr s)
      | _ \<Rightarrow> Inl (TypeError, s))"

text \<open>
  The branch shared by \<open>event_rps_chosen\<close> and \<open>event_chat\<close>: send on the socket of
  the thread that is alive, the server's first.
\<close>

definition send_peer :: "bytes \<Rightarrow> app \<Rightarrow> app" where
  "send_peer data s =
     (if server_thread_alive s then emit (Send Server_client_socket data) s
      else if client_thread_alive s then emit (Send Client_socket data) s
      else s)"

definition event_rps_chosen :: "string \<Rightarrow> app \<Rightarrow> res" where
  "event_rps_chosen v s =
     (let s1 = s\<lparr>game_rps_button_state := ''disabled'', player_choice := Some v\<rparr>;
          s2 = send_peer (''GAME'' @ v) s1
      in if truthy_str (opponent_choice s2) then determine_results s2
         else Inr (network_chat (Waiting_for (opponent_username s2)) ''system_chat'' s2))"

definition network_connected :: "string \<Rightarrow> app \<Rightarrow> res" where
  "network_connected peer_ip s =
     (let s1 = emit (Status_textbox (Connection_successful (local_ip s) peer_ip))
                 (s\<lparr>current_round := Some 1\<rparr>)
      in case user_profile s1 of
           None \<Rightarrow> Inl (TypeError, s1)
         | Some p \<Rightarrow>
             Inr (update_lobby_state ''disabled''
                   (update_game_state ''normal''
                     (emit (Main_textbox
                              (Versus_banner (username p) (opponent_username s1) 1 (total_rounds s1))
                              ''system_chat'') s1))))"

definition network_disconnected :: "app \<Rightarrow> app" where
  "network_disconnected s =
     (let s1 = emit (Status_textbox Connection_terminated) s;
          s2 = (if truthy_int (current_round s1)
                then emit (Main_textbox Rounds_completed ''system_chat'') s1 else s1);
          s3 = update_lobby_state ''normal'' (update_game_state ''disabled'' s2)
      in s3\<lparr>player_choice := None, opponent_choice := None, opponent_username := None,
            total_rounds := None, current_round := None\<rparr>)"

definition save_profile_stats :: "app \<Rightarrow> app" where
  \<comment> \<open>The file is outside the model; every exception is handled inside the method.\<close>
  "save_profile_stats s = emit Save_profile_stats s"

definition event_logout :: "app \<Rightarrow> app" where
  "event_logout s = (emit Show_login_screen s)\<lparr>user_profile := None\<rparr>"

text \<open>The end of \<open>event_disconnect\<close>, from \<open>if scope == "exit"\<close>.\<close>

definition leave :: "string option \<Rightarrow> app \<Rightarrow> app" where
  "leave scope s =
     (if scope = Some ''exit'' then
        emit Gui_destroy (if user_profile s \<noteq> None then save_profile_stats s else s)
      else if scope = Some ''logout'' then event_logout (save_profile_stats s)
      else s)"

text \<open>
  \<open>event_disconnect\<close>; \<open>answer\<close> is what \<open>msg.get()\<close> returns for the dialog
  "Disconnect From Peer", which is opened only when \<open>current_round\<close> is true.
\<close>

definition event_disconnect :: "string option \<Rightarrow> string option \<Rightarrow> app \<Rightarrow> res" where
  "event_disconnect scope answer s =
     (if truthy_int (current_round s) then
        (case total_rounds s of
           None \<Rightarrow> Inl (TypeError, s)
         | Some t \<Rightarrow>
             (let s1 = emit (Messagebox ''Disconnect From Peer'') s in
              if answer = Some ''Proceed'' then
                and_then
                  (dropout_resolution ''quitter''
                     (if server_thread_alive s1 then server_stop ''mid_game'' s1
                      else if client_thread_alive s1 then client_stop ''mid_game'' s1
                      else s1))
                  (\<lambda>s2. Inr (leave scope s2))
              else if answer = Some ''Cancel'' then Inr s1
              else Inr (leave scope s1)))
      else
        Inr (leave scope
               (if broadcast_thread_alive s then stop_listen s
                else if server_thread_alive s then server_stop ''no_game'' s
                else if client_thread_alive s then client_stop ''no_game'' s
                else s)))"

definition on_exit :: "string option \<Rightarrow> app \<Rightarrow> res" where
  "on_exit answer s = event_disconnect (Some ''exit'') answer (s\<lparr>allow_gui_update := False\<rparr>)"

definition event_chat :: "string \<Rightarrow> app \<Rightarrow> app" where
  "event_chat msg s =
     (if msg \<noteq> [] then send_peer (''CHAT'' @ msg) (network_chat (Chat_text msg) ''local_chat'' s)
      else s)"

definition launch_server :: "app \<Rightarrow> app" where
  "launch_server s = s\<lparr>server_thread_alive := True\<rparr>"

section \<open>Text and bytes\<close>

definition startswith :: "bytes \<Rightarrow> bytes \<Rightarrow> bool" where
  "startswith data p = (take (length p) data = p)"

text \<open>\<open>str.split(',')\<close>: one field more than there are commas.\<close>

fun split_comma :: "string \<Rightarrow> string list" where
  "split_comma [] = [[]]"
| "split_comma (c # cs) =
     (if c = CHR '','' then [] # split_comma cs
      else (case split_comma cs of [] \<Rightarrow> [[c]] | f # fs \<Rightarrow> (c # f) # fs))"

text \<open>
  \<open>bytes.decode('utf-8')\<close>. A text is held as its UTF-8 encoding, so decoding returns the
  bytes when they are well-formed UTF-8 (the byte ranges of the Unicode standard: no
  overlong form, no surrogate, nothing above U+10FFFF) and raises otherwise. Comparing
  texts, splitting at commas and testing for the empty text are the same on the encoding.
\<close>

definition byte_in :: "nat \<Rightarrow> nat \<Rightarrow> char \<Rightarrow> bool" where
  "byte_in lo hi c = (lo \<le> of_char c \<and> of_char c \<le> hi)"

fun valid_utf8 :: "bytes \<Rightarrow> bool" where
  "valid_utf8 [] = True"
| "valid_utf8 (c # cs) =
     (let b = (of_char c :: nat) in
      if b < 0x80 then valid_utf8 cs
      else if 0xC2 \<le> b \<and> b \<le> 0xDF then
        (case cs of c1 # r \<Rightarrow> byte_in 0x80 0xBF c1 \<and> valid_utf8 r | _ \<Rightarrow> False)
      else if 0xE0 \<le> b \<and> b \<le> 0xEF then
        (case cs of
           c1 # c2 # r \<Rightarrow>
             byte_in (if b = 0xE0 then 0xA0 else 0x80) (if b = 0xED then 0x9F else 0xBF) c1
             \<and> byte_in 0x80 0xBF c2 \<and> valid_utf8 r
         | _ \<Rightarrow> False)
      else if 0xF0 \<le> b \<and> b \<le> 0xF4 then
        (case cs of
           c1 # c2 # c3 # r \<Rightarrow>
             byte_in (if b = 0xF0 then 0x90 else 0x80) (if b = 0xF4 then 0x8F else 0xBF) c1
             \<and> byte_in 0x80 0xBF c2 \<and> byte_in 0x80 0xBF c3 \<and> valid_utf8 r
         | _ \<Rightarrow> False)
      else False)"

definition decode_utf8 :: "bytes \<Rightarrow> string option" where
  "decode_utf8 data = (if valid_utf8 data then Some data else None)"

text \<open>\<open>str\<close> of an integer and of an optional integer, as an f-string prints them.\<close>

fun str_nat :: "nat \<Rightarrow> string" where
  "str_nat n =
     (if n < 10 then [char_of (48 + n)] else str_nat (n div 10) @ [char_of (48 + n mod 10)])"

definition str_int :: "int \<Rightarrow> string" where
  "str_int i = (if i < 0 then CHR ''-'' # str_nat (nat (- i)) else str_nat (nat i))"

definition str_opt_int :: "int option \<Rightarrow> string" where
  "str_opt_int v = (case v of None \<Rightarrow> ''None'' | Some i \<Rightarrow> str_int i)"

section \<open>The read loop of Server.start and Client.start\<close>

text \<open>
  What one pass of a receive loop does: go round again, leave the loop (\<open>break\<close>), or
  raise to the handler around the loop.
\<close>

datatype step = Continue app | Break app | Raise error app

datatype loop_exit = Loop_break | Loop_raise error

text \<open>What \<open>recv\<close> returns: bytes (none when the peer has closed) or an exception.\<close>

datatype recv = Data bytes | Recv_error

definition chat_part :: "bytes \<Rightarrow> app \<Rightarrow> step" where
  "chat_part data s =
     (if startswith data ''CHAT'' then
        (case decode_utf8 (drop 4 data) of
           None \<Rightarrow> Raise UnicodeDecodeError s
         | Some msg \<Rightarrow> Continue (schedule (Cb_network_chat (Chat_text msg) ''peer_chat'') s))
      else Continue s)"

definition game_part :: "bytes \<Rightarrow> app \<Rightarrow> step" where
  "game_part data s =
     (if startswith data ''GAME'' then
        (case decode_utf8 (drop 4 data) of
           None \<Rightarrow> Raise UnicodeDecodeError s
         | Some c \<Rightarrow>
             (let s1 = s\<lparr>opponent_choice := Some c\<rparr> in
              if truthy_str (player_choice s1) then Continue (schedule Cb_determine_results s1)
              else Continue (schedule (Cb_network_chat (Has_chosen (opponent_username s1))
                                         ''system_chat'') s1)))
      else Continue s)"

definition stream_message :: "bytes \<Rightarrow> app \<Rightarrow> step" where
  "stream_message data s =
     (if data = [] then Break s
      else if startswith data ''DISCONNECT'' then
        (case decode_utf8 (drop 10 data) of
           None \<Rightarrow> Raise UnicodeDecodeError s
         | Some game_state \<Rightarrow>
             Break (if game_state = ''mid_game''
                    then schedule (Cb_dropout_resolution ''player'') s else s))
      else
        (case chat_part data s of
           Continue s1 \<Rightarrow> game_part data s1
         | other \<Rightarrow> other))"

text \<open>
  The loop over what \<open>recv\<close> returns, call after call. \<open>recv\<close> has no timeout: when the
  list is used up the loop is still waiting, and has not left (\<open>None\<close>).
\<close>

fun read_loop :: "recv list \<Rightarrow> app \<Rightarrow> loop_exit option \<times> app" where
  "read_loop [] s = (None, s)"
| "read_loop (Recv_error # rs) s = (Some (Loop_raise OSError), s)"
| "read_loop (Data d # rs) s =
     (case stream_message d s of
        Continue s1 \<Rightarrow> read_loop rs s1
      | Break s1 \<Rightarrow> (Some Loop_break, s1)
      | Raise e s1 \<Rightarrow> (Some (Loop_raise e), s1))"

text \<open>What \<open>Server.start\<close> does once the loop is left: the rest of \<open>try\<close>, \<open>except\<close>, \<open>finally\<close>.\<close>

definition server_finish :: "loop_exit \<Rightarrow> app \<Rightarrow> app" where
  "server_finish ex s =
     (let s1 = (case ex of
                  Loop_break \<Rightarrow> emit (Close Server_socket) (emit (Close Server_client_socket) s)
                | Loop_raise e \<Rightarrow>
                    (if allow_gui_update s then emit (Messagebox ''Server Connection Error'') s
                     else s));
          s2 = s1\<lparr>client_connected := False\<rparr>
      in if allow_gui_update s2 then schedule Cb_network_disconnected s2 else s2)"


definition client_finish :: "loop_exit \<Rightarrow> app \<Rightarrow> app" where
  "client_finish ex s =
     (let s1 = (case ex of
                  Loop_break \<Rightarrow> s
                | Loop_raise e \<Rightarrow>
                    (if allow_gui_update s then emit (Messagebox ''Server Connection Error'') s
                     else s));
          s2 = emit (Close Client_socket) s1
      in if allow_gui_update s2 then schedule Cb_network_disconnected s2 else s2)"


section \<open>Server.broadcast\_listen\<close>

text \<open>What \<open>recvfrom\<close> returns on the listening socket: a datagram with its sender, or an exception.\<close>

datatype dgram = Dgram bytes "string \<times> int" | Dgram_error

definition lookup_part :: "bytes \<Rightarrow> string \<times> int \<Rightarrow> app \<Rightarrow> step" where
  "lookup_part data addr s =
     (if startswith data ''LOOKUP'' then
        (case user_profile s of
           None \<Rightarrow> Raise TypeError s
         | Some p \<Rightarrow>
             Continue (emit (Send_to (str_int (server_port s) @ '','' @ username p @ '',''
                                        @ str_opt_int (total_rounds s))
                               (Some (fst addr), snd addr)) s))
      else Continue s)"

definition connect_part :: "bytes \<Rightarrow> string \<times> int \<Rightarrow> app \<Rightarrow> step" where
  "connect_part data addr s =
     (if startswith data ''CONNECT'' then
        (case decode_utf8 (drop 7 data) of
           None \<Rightarrow> Raise UnicodeDecodeError s
         | Some txt \<Rightarrow>
             (let data_values = split_comma txt in
              if length data_values = 2 then
                (if data_values ! 0 = local_ip s then
                   Break (schedule Cb_launch_server
                            (emit (Send_to ''ACK'' (Some (fst addr), snd addr))
                               (s\<lparr>opponent_username := Some (data_values ! 1)\<rparr>)))
                 else Continue s)
              else Continue s))
      else Continue s)"

definition disconnect_part :: "bytes \<Rightarrow> app \<Rightarrow> step" where
  "disconnect_part data s =
     (if data = ''DISCONNECT'' then
        Break (if allow_gui_update s then schedule Cb_network_disconnected s else s)
      else Continue s)"

definition listen_message :: "bytes \<Rightarrow> string \<times> int \<Rightarrow> app \<Rightarrow> step" where
  "listen_message data addr s =
     (case lookup_part data addr s of
        Continue s1 \<Rightarrow>
          (case connect_part data addr s1 of
             Continue s2 \<Rightarrow> disconnect_part data s2
           | other \<Rightarrow> other)
      | other \<Rightarrow> other)"

fun listen_loop :: "dgram list \<Rightarrow> app \<Rightarrow> loop_exit option \<times> app" where
  "listen_loop [] s = (None, s)"
| "listen_loop (Dgram_error # ds) s = (Some (Loop_raise OSError), s)"
| "listen_loop (Dgram data addr # ds) s =
     (case listen_message data addr s of
        Continue s1 \<Rightarrow> listen_loop ds s1
      | Break s1 \<Rightarrow> (Some Loop_break, s1)
      | Raise e s1 \<Rightarrow> (Some (Loop_raise e), s1))"

text \<open>
  \<open>Server.broadcast_listen\<close>; \<open>bound\<close> says whether \<open>bind\<close> succeeds. The result is
  \<open>None\<close> while the method is still in its loop.
\<close>

definition broadcast_listen :: "bool \<Rightarrow> dgram list \<Rightarrow> app \<Rightarrow> app option" where
  "broadcast_listen bound script s =
     (if bound then
        (case listen_loop script s of
           (None, s1) \<Rightarrow> None
         | (Some Loop_break, s1) \<Rightarrow> Some (emit (Close Udp_socket) s1)
         | (Some (Loop_raise e), s1) \<Rightarrow>
             Some (emit (Close Udp_socket) (emit (Messagebox ''Hosting Connection Error'') s1)))
      else Some (emit (Close Udp_socket) (emit (Messagebox ''Hosting Connection Error'') s)))"

section \<open>Network.discover\_servers\<close>

text \<open>
  The datagrams that reach the socket after \<open>LOOKUP\<close> is sent. \<open>Arrive w data addr\<close> is a
  datagram that is there \<open>w\<close> milliseconds after \<open>recvfrom\<close> is called, \<open>Fail w\<close> an error of
  the socket after that time. With \<open>settimeout\<close>, \<open>recvfrom\<close> raises \<open>socket.timeout\<close> when
  nothing is there within the timeout, so it does once the list is used up. The last
  argument of \<open>collect\<close> is a clock, not a variable of the source: the milliseconds spent
  in \<open>recvfrom\<close> since \<open>LOOKUP\<close> was sent.
\<close>

datatype arrival = Arrive nat bytes "string \<times> int" | Fail nat

type_synonym server_entry = "string \<times> string \<times> string \<times> string"

fun collect ::
  "nat \<Rightarrow> arrival list \<Rightarrow> server_entry list \<Rightarrow> nat \<Rightarrow> loop_exit \<times> server_entry list \<times> nat" where
  "collect timeout [] available_servers clock = (Loop_break, available_servers, clock + timeout)"
| "collect timeout (Fail w # as) available_servers clock =
     (if w < timeout then (Loop_raise OSError, available_servers, clock + w)
      else (Loop_break, available_servers, clock + timeout))"
| "collect timeout (Arrive w data addr # as) available_servers clock =
     (if w < timeout then
        (case decode_utf8 data of
           None \<Rightarrow> (Loop_raise UnicodeDecodeError, available_servers, clock + w)
         | Some txt \<Rightarrow>
             (let data_values = split_comma txt in
              if length data_values = 3 then
                collect timeout as
                  (available_servers @
                     [(fst addr, data_values ! 0, data_values ! 1, data_values ! 2)])
                  (clock + w)
              else collect timeout as available_servers (clock + w)))
      else (Loop_break, available_servers, clock + timeout))"

text \<open>
  \<open>Network.discover_servers\<close>: the list it returns, the clock when it returns, and the
  state. \<open>sendto\<close> raises when \<open>broadcast_address\<close> is \<open>None\<close>.
\<close>

definition discover_servers :: "arrival list \<Rightarrow> app \<Rightarrow> server_entry list \<times> nat \<times> app" where
  "discover_servers arrivals s =
     (case broadcast_address s of
        None \<Rightarrow> ([], 0, emit (Close Udp_socket) (emit (Messagebox ''Server Lookup Failed'') s))
      | Some a \<Rightarrow>
          (let s1 = emit (Send_to ''LOOKUP'' (Some a, broadcast_port s)) s in
           case collect 5000 arrivals [] 0 of
             (Loop_break, servers, clock) \<Rightarrow> (servers, clock, emit (Close Udp_socket) s1)
           | (Loop_raise e, servers, clock) \<Rightarrow>
               (servers, clock,
                emit (Close Udp_socket) (emit (Messagebox ''Server Lookup Failed'') s1))))"

section \<open>A session: the main loop and the worker thread together\<close>

text \<open>The main loop runs the callbacks handed to it, in order; an exception ends only that callback.\<close>

fun run_callback :: "callback \<Rightarrow> app \<Rightarrow> app" where
  "run_callback (Cb_network_connected peer_ip) s = state_of (network_connected peer_ip s)"
| "run_callback Cb_network_disconnected s = network_disconnected s"
| "run_callback (Cb_dropout_resolution actor) s = state_of (dropout_resolution actor s)"
| "run_callback (Cb_network_chat msg type) s = network_chat msg type s"
| "run_callback Cb_determine_results s = state_of (determine_results s)"
| "run_callback Cb_launch_server s = launch_server s"

definition run_pending :: "app \<Rightarrow> app" where
  "run_pending s = fold run_callback (after_queue s) (s\<lparr>after_queue := []\<rparr>)"

text \<open>
  What happens during a session, seen from the main loop: the user picks a choice, sends a
  chat line, presses Disconnect (or closes the window), or the worker thread gets something
  from \<open>recv\<close> and the callbacks it hands over are run. When the worker leaves its loop the
  thread ends.
\<close>

datatype event =
    Ev_rps_chosen string
  | Ev_chat string
  | Ev_disconnect "string option" "string option"
  | Ev_exit "string option"
  | Ev_recv recv

definition worker_finish :: "loop_exit \<Rightarrow> app \<Rightarrow> app" where
  "worker_finish ex s =
     (if server_thread_alive s then (server_finish ex s)\<lparr>server_thread_alive := False\<rparr>
      else (client_finish ex s)\<lparr>client_thread_alive := False\<rparr>)"

definition worker_recv :: "recv \<Rightarrow> app \<Rightarrow> app" where
  "worker_recv r s =
     (if server_thread_alive s \<or> client_thread_alive s then
        (case r of
           Recv_error \<Rightarrow> worker_finish (Loop_raise OSError) s
         | Data d \<Rightarrow>
             (case stream_message d s of
                Continue s1 \<Rightarrow> s1
              | Break s1 \<Rightarrow> worker_finish Loop_break s1
              | Raise e s1 \<Rightarrow> worker_finish (Loop_raise e) s1))
      else s)"

fun session_step :: "event \<Rightarrow> app \<Rightarrow> app" where
  "session_step (Ev_rps_chosen v) s = state_of (event_rps_chosen v s)"
| "session_step (Ev_chat msg) s = event_chat msg s"
| "session_step (Ev_disconnect scope answer) s = state_of (event_disconnect scope answer s)"
| "session_step (Ev_exit answer) s = state_of (on_exit answer s)"
| "session_step (Ev_recv r) s = run_pending (worker_recv r s)"

definition session_run :: "event list \<Rightarrow> app \<Rightarrow> app" where
  "session_run evs s = fold session_step evs s"

text \<open>\<open>App()\<close> after a login, and the same with a game on offer or picked from the list.\<close>

definition logged_in :: "profile \<Rightarrow> string \<Rightarrow> app" where
  "logged_in p ip =
     \<lparr>user_profile = Some p, opponent_username = None, player_choice = None,
      opponent_choice = None, total_rounds = None, current_round = None,
      broadcast_thread_alive = False, server_thread_alive = False,
      client_thread_alive = False, allow_gui_update = True, client_connected = False,
      local_ip = ip, broadcast_address = Some ''192.168.1.255'', server_port = 51515,
      broadcast_port = 12121, game_rps_button_state = ''disabled'', after_queue = [],
      trace = []\<rparr>"

definition alice :: profile where
  "alice = \<lparr>username = ''alice'', password = ''5e88'', avatar = ''cat'',
            wins = 4, loses = 2, ties = 1\<rparr>"

definition offering :: "int \<Rightarrow> app" where
  \<comment> \<open>The host after \<open>event_host\<close>, with \<open>broadcast_listen\<close> running.\<close>
  "offering t = (logged_in alice ''192.168.1.10'')
      \<lparr>total_rounds := Some t, broadcast_thread_alive := True\<rparr>"

definition hosting :: "int \<Rightarrow> app" where
  \<comment> \<open>The host once a peer is accepted: \<open>event_host\<close>, \<open>launch_server\<close>, \<open>accept\<close>.\<close>
  "hosting t = (logged_in alice ''192.168.1.10'')
      \<lparr>total_rounds := Some t, opponent_username := Some ''bob'',
       server_thread_alive := True, client_connected := True\<rparr>"

definition joining :: "int \<Rightarrow> app" where
  \<comment> \<open>The joiner once connected: \<open>event_join\<close> on a list entry, \<open>Client.start\<close> up to \<open>connect\<close>.\<close>
  "joining t = (logged_in alice ''192.168.1.10'')
      \<lparr>total_rounds := Some t, opponent_username := Some ''bob'',
       client_thread_alive := True\<rparr>"

definition launched_host :: "int \<Rightarrow> app" where
  \<comment> \<open>The host after \<open>launch_server\<close>, with \<open>Server.start\<close> about to run.\<close>
  "launched_host t = (logged_in alice ''192.168.1.10'')
      \<lparr>total_rounds := Some t, opponent_username := Some ''bob'',
       server_thread_alive := True\<rparr>"

definition accepted_host :: "int \<Rightarrow> app" where
  \<comment> \<open>The host inside \<open>Server.start\<close> right after \<open>accept\<close>: \<open>network_connected\<close> is
      handed to the main loop and has not run yet, \<open>client_connected\<close> is set.\<close>
  "accepted_host t =
     (schedule (Cb_network_connected ''192.168.1.20'') (launched_host t))
     \<lparr>client_connected := True\<rparr>"

definition connected :: "app \<Rightarrow> app" where
  \<comment> \<open>The main loop has run \<open>network_connected\<close>.\<close>
  "connected s = state_of (network_connected ''192.168.1.20'' s)"

section \<open>The round counter during a session\<close>

text \<open>
  How \<open>current_round\<close> may change from one state to a later one: once \<open>None\<close> it stays
  \<open>None\<close>; otherwise it becomes \<open>None\<close>, or stays, or grows without passing
  \<open>total_rounds\<close>, and \<open>total_rounds\<close> is kept.
\<close>

definition advances :: "app \<Rightarrow> app \<Rightarrow> bool" where
  "advances s s' =
     (case current_round s of
        None \<Rightarrow> current_round s' = None
      | Some c \<Rightarrow>
          (case current_round s' of
             None \<Rightarrow> True
           | Some c' \<Rightarrow>
               c \<le> c' \<and> total_rounds s' = total_rounds s
               \<and> (c' = c \<or> (case total_rounds s of None \<Rightarrow> False | Some t \<Rightarrow> c' \<le> t))))"

text \<open>The callbacks a worker thread hands over once the connection is there.\<close>

fun session_cb :: "callback \<Rightarrow> bool" where
  "session_cb (Cb_network_connected peer_ip) = False"
| "session_cb Cb_launch_server = False"
| "session_cb cb = True"

definition quiet :: "app \<Rightarrow> bool" where
  "quiet s = list_all session_cb (after_queue s)"

text \<open>
  The callbacks a read loop hands over while it goes on, and what holds of a session
  between two events: one worker thread at most, and while it runs \<open>current_round\<close> is
  set and at least 1.
\<close>

fun game_cb :: "callback \<Rightarrow> bool" where
  "game_cb (Cb_network_chat msg type) = True"
| "game_cb Cb_determine_results = True"
| "game_cb cb = False"

definition in_game :: "app \<Rightarrow> bool" where
  "in_game s =
     (\<not> (server_thread_alive s \<and> client_thread_alive s)
      \<and> (server_thread_alive s \<or> client_thread_alive s \<longrightarrow>
           (case current_round s of None \<Rightarrow> False | Some c \<Rightarrow> 1 \<le> c)))"

section \<open>Counting what a loop has done\<close>

fun is_ack :: "effect \<Rightarrow> bool" where
  "is_ack (Send_to m a) = (m = ''ACK'')"
| "is_ack e = False"

definition acks :: "app \<Rightarrow> nat" where
  "acks s = length (filter is_ack (trace s))"

definition launches :: "app \<Rightarrow> nat" where
  "launches s = count_list (after_queue s) Cb_launch_server"

definition notifications :: "app \<Rightarrow> nat" where
  "notifications s = count_list (after_queue s) Cb_network_disconnected"

definition closes :: "sock \<Rightarrow> app \<Rightarrow> nat" where
  "closes k s = count_list (trace s) (Close k)"

text \<open>
  A datagram that \<open>discover_servers\<close> takes in: it is there before the timeout and it
  decodes. \<open>wait_of\<close> is the time \<open>recvfrom\<close> waited for it.
\<close>

fun in_time :: "nat \<Rightarrow> arrival \<Rightarrow> bool" where
  "in_time timeout (Arrive w data addr) = (w < timeout \<and> decode_utf8 data \<noteq> None)"
| "in_time timeout (Fail w) = False"

fun wait_of :: "arrival \<Rightarrow> nat" where
  "wait_of (Arrive w data addr) = w"
| "wait_of (Fail w) = w"

section \<open>Basic facts\<close>

lemmas example_defs = logged_in_def alice_def offering_def hosting_def joining_def connected_def
  launched_host_def accepted_host_def

lemma state_of_simps [simp]: "state_of (Inl (e, s)) = s" "state_of (Inr s) = s"
  by (simp_all add: state_of_def)

lemma emit_fields [simp]:
  "user_profile (emit e s) = user_profile s"
  "opponent_username (emit e s) = opponent_username s"
  "player_choice (emit e s) = player_choice s"
  "opponent_choice (emit e s) = opponent_choice s"
  "total_rounds (emit e s) = total_rounds s"
  "current_round (emit e s) = current_round s"
  "broadcast_thread_alive (emit e s) = broadcast_thread_alive s"
  "server_thread_alive (emit e s) = server_thread_alive s"
  "client_thread_alive (emit e s) = client_thread_alive s"
  "allow_gui_update (emit e s) = allow_gui_update s"
  "client_connected (emit e s) = client_connected s"
  "local_ip (emit e s) = local_ip s"
  "broadcast_address (emit e s) = broadcast_address s"
  "server_port (emit e s) = server_port s"
  "broadcast_port (emit e s) = broadcast_port s"
  "game_rps_button_state (emit e s) = game_rps_button_state s"
  "after_queue (emit e s) = after_queue s"
  "trace (emit e s) = trace s @ [e]"
  by (simp_all add: emit_def)

lemma schedule_fields [simp]:
  "user_profile (schedule cb s) = user_profile s"
  "opponent_username (schedule cb s) = opponent_username s"
  "player_choice (schedule cb s) = player_choice s"
  "opponent_choice (schedule cb s) = opponent_choice s"
  "total_rounds (schedule cb s) = total_rounds s"
  "current_round (schedule cb s) = current_round s"
  "broadcast_thread_alive (schedule cb s) = broadcast_thread_alive s"
  "server_thread_alive (schedule cb s) = server_thread_alive s"
  "client_thread_alive (schedule cb s) = client_thread_alive s"
  "allow_gui_update (schedule cb s) = allow_gui_update s"
  "client_connected (schedule cb s) = client_connected s"
  "local_ip (schedule cb s) = local_ip s"
  "game_rps_button_state (schedule cb s) = game_rps_button_state s"
  "after_queue (schedule cb s) = after_queue s @ [cb]"
  "trace (schedule cb s) = trace s"
  by (simp_all add: schedule_def)

lemma server_stop_fields [simp]:
  "user_profile (server_stop g s) = user_profile s"
  "opponent_username (server_stop g s) = opponent_username s"
  "player_choice (server_stop g s) = player_choice s"
  "opponent_choice (server_stop g s) = opponent_choice s"
  "total_rounds (server_stop g s) = total_rounds s"
  "current_round (server_stop g s) = current_round s"
  "server_thread_alive (server_stop g s) = server_thread_alive s"
  "client_thread_alive (server_stop g s) = client_thread_alive s"
  "allow_gui_update (server_stop g s) = allow_gui_update s"
  "client_connected (server_stop g s) = client_connected s"
  "game_rps_button_state (server_stop g s) = game_rps_button_state s"
  "after_queue (server_stop g s) = after_queue s"
  by (simp_all add: server_stop_def)

lemma client_stop_fields [simp]:
  "user_profile (client_stop g s) = user_profile s"
  "opponent_username (client_stop g s) = opponent_username s"
  "player_choice (client_stop g s) = player_choice s"
  "opponent_choice (client_stop g s) = opponent_choice s"
  "total_rounds (client_stop g s) = total_rounds s"
  "current_round (client_stop g s) = current_round s"
  "server_thread_alive (client_stop g s) = server_thread_alive s"
  "client_thread_alive (client_stop g s) = client_thread_alive s"
  "allow_gui_update (client_stop g s) = allow_gui_update s"
  "client_connected (client_stop g s) = client_connected s"
  "game_rps_button_state (client_stop g s) = game_rps_button_state s"
  "after_queue (client_stop g s) = after_queue s"
  by (simp_all add: client_stop_def)

lemma send_peer_fields [simp]:
  "user_profile (send_peer d s) = user_profile s"
  "opponent_username (send_peer d s) = opponent_username s"
  "player_choice (send_peer d s) = player_choice s"
  "opponent_choice (send_peer d s) = opponent_choice s"
  "total_rounds (send_peer d s) = total_rounds s"
  "current_round (send_peer d s) = current_round s"
  "server_thread_alive (send_peer d s) = server_thread_alive s"
  "client_thread_alive (send_peer d s) = client_thread_alive s"
  "allow_gui_update (send_peer d s) = allow_gui_update s"
  "client_connected (send_peer d s) = client_connected s"
  "game_rps_button_state (send_peer d s) = game_rps_button_state s"
  "after_queue (send_peer d s) = after_queue s"
  by (simp_all add: send_peer_def)

lemma next_round_profile [simp]: "user_profile (state_of (next_round s)) = user_profile s"
  by (simp add: next_round_def split: option.split)

lemma score_round_shape:
  "(\<exists>e. score_round s = Inl (e, s))
   \<or> (\<exists>a b p p'. choices_item (player_choice s) = Some a
         \<and> choices_item (opponent_choice s) = Some b \<and> user_profile s = Some p
         \<and> p' = (if (a - b) mod 3 = 0 then p\<lparr>ties := ties p + 1\<rparr>
                  else if (a - b) mod 3 = 1 then p\<lparr>wins := wins p + 1\<rparr>
                  else p\<lparr>loses := loses p + 1\<rparr>)
         \<and> score_round s =
             Inr (s\<lparr>user_profile := Some p',
                    trace := trace s @
                      [Stats_label (wins p') (loses p') (ties p'),
                       Main_textbox
                         (Ascii_art (case (player_choice s, opponent_choice s) of
                                       (Some pc, Some oc) \<Rightarrow> ascii_results pc oc
                                     | _ \<Rightarrow> None))
                         ''system_chat'']\<rparr>))"
proof (cases "choices_item (player_choice s)")
  case None
  then show ?thesis by (simp add: score_round_def)
next
  case a: (Some a)
  show ?thesis
  proof (cases "choices_item (opponent_choice s)")
    case None
    with a show ?thesis by (simp add: score_round_def)
  next
    case b: (Some b)
    show ?thesis
    proof (cases "user_profile s")
      case None
      with a b show ?thesis by (simp add: score_round_def)
    next
      case (Some p)
      show ?thesis
        by (rule disjI2)
          (simp add: score_round_def a b Some Let_def and_then_def update_profile_stats_def
            network_chat_def emit_def split del: if_split cong: option.case_cong)
    qed
  qed
qed

lemma determine_results_profile:
  assumes "choices_item (player_choice s) = Some a" "choices_item (opponent_choice s) = Some b"
    "user_profile s = Some p"
  shows "user_profile (state_of (determine_results s)) =
     Some (if (a - b) mod 3 = 0 then p\<lparr>ties := ties p + 1\<rparr>
           else if (a - b) mod 3 = 1 then p\<lparr>wins := wins p + 1\<rparr>
           else p\<lparr>loses := loses p + 1\<rparr>)"
  using assms
  by (simp add: determine_results_def score_round_def Let_def and_then_def
      update_profile_stats_def network_chat_def)


lemma choices_simps:
  "choices ''Rock'' = Some 0" "choices ''Paper'' = Some 1" "choices ''Scissors'' = Some 2"
  by (simp_all add: choices_def)

lemma startswith_append [simp]: "startswith (p @ x) p"
  by (simp add: startswith_def)

lemma startswith_simps [simp]:
  "startswith data [] = True"
  "startswith [] (c # p) = False"
  "startswith (d # data) (c # p) = (d = c \<and> startswith data p)"
  by (auto simp: startswith_def)

lemma connected_hosting [simp]:
  "user_profile (connected (hosting t)) = Some alice"
  "opponent_username (connected (hosting t)) = Some ''bob''"
  "player_choice (connected (hosting t)) = None"
  "opponent_choice (connected (hosting t)) = None"
  "total_rounds (connected (hosting t)) = Some t"
  "current_round (connected (hosting t)) = Some 1"
  "server_thread_alive (connected (hosting t))"
  "\<not> client_thread_alive (connected (hosting t))"
  "allow_gui_update (connected (hosting t))"
  "client_connected (connected (hosting t))"
  "game_rps_button_state (connected (hosting t)) = ''normal''"
  "after_queue (connected (hosting t)) = []"
  by (simp_all add: example_defs network_connected_def Let_def update_lobby_state_def
      update_game_state_def)

lemma connected_joining [simp]:
  "user_profile (connected (joining t)) = Some alice"
  "opponent_username (connected (joining t)) = Some ''bob''"
  "player_choice (connected (joining t)) = None"
  "opponent_choice (connected (joining t)) = None"
  "total_rounds (connected (joining t)) = Some t"
  "current_round (connected (joining t)) = Some 1"
  "\<not> server_thread_alive (connected (joining t))"
  "client_thread_alive (connected (joining t))"
  "allow_gui_update (connected (joining t))"
  "\<not> client_connected (connected (joining t))"
  "game_rps_button_state (connected (joining t)) = ''normal''"
  "after_queue (connected (joining t)) = []"
  by (simp_all add: example_defs network_connected_def Let_def update_lobby_state_def
      update_game_state_def)

lemma network_chat_fields [simp]:
  "user_profile (network_chat m ty s) = user_profile s"
  "opponent_username (network_chat m ty s) = opponent_username s"
  "player_choice (network_chat m ty s) = player_choice s"
  "opponent_choice (network_chat m ty s) = opponent_choice s"
  "total_rounds (network_chat m ty s) = total_rounds s"
  "current_round (network_chat m ty s) = current_round s"
  "server_thread_alive (network_chat m ty s) = server_thread_alive s"
  "client_thread_alive (network_chat m ty s) = client_thread_alive s"
  "allow_gui_update (network_chat m ty s) = allow_gui_update s"
  "client_connected (network_chat m ty s) = client_connected s"
  "game_rps_button_state (network_chat m ty s) = game_rps_button_state s"
  "after_queue (network_chat m ty s) = after_queue s"
  "trace (network_chat m ty s) = trace s @ [Main_textbox m ty]"
  by (simp_all add: network_chat_def)

lemma truthy_simps [simp]:
  "truthy_str None = False" "truthy_str (Some x) = (x \<noteq> [])"
  "truthy_int None = False" "truthy_int (Some n) = (n \<noteq> 0)"
  by (simp_all add: truthy_str_def truthy_int_def)

lemma event_rps_chosen_waiting:
  "\<not> truthy_str (opponent_choice s) \<Longrightarrow>
   event_rps_chosen v s =
     Inr (network_chat (Waiting_for (opponent_username s)) ''system_chat''
           (send_peer (''GAME'' @ v)
              (s\<lparr>game_rps_button_state := ''disabled'', player_choice := Some v\<rparr>)))"
  by (simp add: event_rps_chosen_def Let_def)

lemma startswith_D: "startswith data p \<Longrightarrow> data = p @ drop (length p) data"
  by (metis append_take_drop_id startswith_def)



subsection \<open>The round counter\<close>

lemma advances_refl [simp]: "advances s s"
  by (simp add: advances_def split: option.split)

lemma advances_trans: "advances a b \<Longrightarrow> advances b c \<Longrightarrow> advances a c"
  by (auto simp: advances_def split: option.splits)

lemma advances_same:
  "current_round s' = current_round s \<Longrightarrow> total_rounds s' = total_rounds s \<Longrightarrow> advances s s'"
  by (simp add: advances_def split: option.split)

lemma advances_cong:
  "current_round s' = current_round s \<Longrightarrow> total_rounds s' = total_rounds s \<Longrightarrow>
   advances s' x \<Longrightarrow> advances s x"
  by (auto simp: advances_def split: option.splits)

lemma next_round_frame:
  "after_queue (state_of (next_round s)) = after_queue s"
  "advances s (state_of (next_round s))"
  by (auto simp: next_round_def advances_def split: option.split)

lemma determine_results_shape:
  "(\<exists>e. determine_results s = Inl (e, s))
   \<or> (\<exists>s2. determine_results s = next_round s2 \<and> current_round s2 = current_round s
          \<and> total_rounds s2 = total_rounds s \<and> after_queue s2 = after_queue s)"
  using score_round_shape [of s]
proof (elim disjE exE conjE)
  fix e assume "score_round s = Inl (e, s)"
  then show ?thesis by (simp add: determine_results_def and_then_def)
next
  fix a b p p'
  assume "score_round s =
             Inr (s\<lparr>user_profile := Some p',
                    trace := trace s @
                      [Stats_label (wins p') (loses p') (ties p'),
                       Main_textbox
                         (Ascii_art (case (player_choice s, opponent_choice s) of
                                       (Some pc, Some oc) \<Rightarrow> ascii_results pc oc
                                     | _ \<Rightarrow> None))
                         ''system_chat'']\<rparr>)"
  then show ?thesis
    by (intro disjI2 exI [of _ "s\<lparr>user_profile := Some p',
                    trace := trace s @
                      [Stats_label (wins p') (loses p') (ties p'),
                       Main_textbox
                         (Ascii_art (case (player_choice s, opponent_choice s) of
                                       (Some pc, Some oc) \<Rightarrow> ascii_results pc oc
                                     | _ \<Rightarrow> None))
                         ''system_chat'']\<rparr>"])
      (simp add: determine_results_def and_then_def)
qed

lemma determine_results_frame:
  "after_queue (state_of (determine_results s)) = after_queue s"
  "advances s (state_of (determine_results s))"
proof -
  from determine_results_shape [of s]
  have "after_queue (state_of (determine_results s)) = after_queue s
        \<and> advances s (state_of (determine_results s))"
  proof (elim disjE exE conjE)
    fix e assume "determine_results s = Inl (e, s)"
    then show ?thesis by simp
  next
    fix s2 assume h: "determine_results s = next_round s2" "current_round s2 = current_round s"
      "total_rounds s2 = total_rounds s" "after_queue s2 = after_queue s"
    from advances_cong [OF h(2,3) next_round_frame(2) [of s2]] h(1,4) next_round_frame(1) [of s2]
    show ?thesis by simp
  qed
  then show "after_queue (state_of (determine_results s)) = after_queue s"
    "advances s (state_of (determine_results s))" by simp_all
qed

lemma dropout_resolution_frame [simp]:
  "after_queue (state_of (dropout_resolution a s)) = after_queue s"
  "current_round (state_of (dropout_resolution a s)) = current_round s"
  "total_rounds (state_of (dropout_resolution a s)) = total_rounds s"
  by (simp_all add: dropout_resolution_def Let_def update_profile_stats_def split: option.split)

lemma update_state_fields [simp]:
  "after_queue (update_game_state st s) = after_queue s"
  "current_round (update_game_state st s) = current_round s"
  "total_rounds (update_game_state st s) = total_rounds s"
  "after_queue (update_lobby_state st s) = after_queue s"
  "current_round (update_lobby_state st s) = current_round s"
  "total_rounds (update_lobby_state st s) = total_rounds s"
  by (simp_all add: update_game_state_def update_lobby_state_def)

lemma network_disconnected_frame [simp]:
  "after_queue (network_disconnected s) = after_queue s"
  "current_round (network_disconnected s) = None"
  by (simp_all add: network_disconnected_def Let_def)

lemma event_rps_chosen_frame:
  "after_queue (state_of (event_rps_chosen v s)) = after_queue s"
  "advances s (state_of (event_rps_chosen v s))"
proof -
  let ?s2 = "send_peer (''GAME'' @ v)
               (s\<lparr>game_rps_button_state := ''disabled'', player_choice := Some v\<rparr>)"
  have c: "current_round ?s2 = current_round s" "total_rounds ?s2 = total_rounds s"
    "after_queue ?s2 = after_queue s" by simp_all
  show "after_queue (state_of (event_rps_chosen v s)) = after_queue s"
    using c by (simp add: event_rps_chosen_def Let_def determine_results_frame)
  show "advances s (state_of (event_rps_chosen v s))"
    using determine_results_frame(2) [of ?s2] c
    by (auto simp: event_rps_chosen_def Let_def advances_same intro: advances_cong [of ?s2 s])
qed


lemma leave_frame [simp]:
  "after_queue (leave scope s) = after_queue s"
  "current_round (leave scope s) = current_round s"
  "total_rounds (leave scope s) = total_rounds s"
  by (simp_all add: leave_def event_logout_def save_profile_stats_def)


lemma stop_listen_frame [simp]:
  "after_queue (stop_listen s) = after_queue s"
  "current_round (stop_listen s) = current_round s"
  "total_rounds (stop_listen s) = total_rounds s"
  by (simp_all add: stop_listen_def)


lemma and_then_leave_frame [simp]:
  "after_queue (state_of (and_then r (\<lambda>s2. Inr (leave scope s2)))) = after_queue (state_of r)"
  "current_round (state_of (and_then r (\<lambda>s2. Inr (leave scope s2)))) = current_round (state_of r)"
  "total_rounds (state_of (and_then r (\<lambda>s2. Inr (leave scope s2)))) = total_rounds (state_of r)"
  by (cases r; auto simp: and_then_def)+

lemma event_disconnect_frame [simp]:
  "after_queue (state_of (event_disconnect scope answer s)) = after_queue s"
  "current_round (state_of (event_disconnect scope answer s)) = current_round s"
  "total_rounds (state_of (event_disconnect scope answer s)) = total_rounds s"
  by (simp_all add: event_disconnect_def Let_def split: option.split)

lemma event_chat_frame [simp]:
  "after_queue (event_chat m s) = after_queue s"
  "current_round (event_chat m s) = current_round s"
  "total_rounds (event_chat m s) = total_rounds s"
  by (simp_all add: event_chat_def)


text \<open>What a worker may add to the queue.\<close>


lemma chat_part_frame:
  "chat_part d s = Continue s1 \<or> chat_part d s = Break s1 \<or> chat_part d s = Raise e s1 \<Longrightarrow>
   current_round s1 = current_round s \<and> total_rounds s1 = total_rounds s
   \<and> (\<exists>new. after_queue s1 = after_queue s @ new \<and> list_all session_cb new)"
  by (auto simp: chat_part_def split: if_splits option.splits)


lemma game_part_frame:
  "game_part d s = Continue s1 \<or> game_part d s = Break s1 \<or> game_part d s = Raise e s1 \<Longrightarrow>
   current_round s1 = current_round s \<and> total_rounds s1 = total_rounds s
   \<and> (\<exists>new. after_queue s1 = after_queue s @ new \<and> list_all session_cb new)"
  by (auto simp: game_part_def Let_def split: if_splits option.splits)


lemma stream_message_frame:
  assumes "stream_message d s = Continue s1 \<or> stream_message d s = Break s1
           \<or> stream_message d s = Raise e s1"
  shows "current_round s1 = current_round s \<and> total_rounds s1 = total_rounds s
   \<and> (\<exists>new. after_queue s1 = after_queue s @ new \<and> list_all session_cb new)"
proof (cases "d = [] \<or> startswith d ''DISCONNECT''")
  case True
  with assms show ?thesis
    by (auto simp: stream_message_def split: if_splits option.splits)
next
  case False
  show ?thesis
  proof (cases "chat_part d s")
    case (Continue s0)
    from chat_part_frame [of d s s0] Continue
    have a: "current_round s0 = current_round s \<and> total_rounds s0 = total_rounds s
      \<and> (\<exists>new. after_queue s0 = after_queue s @ new \<and> list_all session_cb new)" by simp
    from assms False Continue
    have "game_part d s0 = Continue s1 \<or> game_part d s0 = Break s1 \<or> game_part d s0 = Raise e s1"
      by (simp add: stream_message_def)
    from game_part_frame [OF this] a show ?thesis by auto
  next
    case (Break s0)
    with assms False have "s1 = s0" by (simp add: stream_message_def)
    with chat_part_frame [of d s s0] Break show ?thesis by simp
  next
    case (Raise e0 s0)
    with assms False have "s1 = s0" by (simp add: stream_message_def)
    with chat_part_frame [of d s s0 e0] Raise show ?thesis by simp
  qed
qed


lemma worker_finish_frame:
  "current_round (worker_finish ex s) = current_round s \<and>
   total_rounds (worker_finish ex s) = total_rounds s \<and>
   (\<exists>new. after_queue (worker_finish ex s) = after_queue s @ new \<and> list_all session_cb new)"
  by (simp add: worker_finish_def server_finish_def client_finish_def Let_def
      split: loop_exit.split)


lemma worker_recv_frame:
  "current_round (worker_recv r s) = current_round s \<and>
   total_rounds (worker_recv r s) = total_rounds s \<and>
   (\<exists>new. after_queue (worker_recv r s) = after_queue s @ new \<and> list_all session_cb new)"
proof (cases "server_thread_alive s \<or> client_thread_alive s")
  case False
  then show ?thesis by (simp add: worker_recv_def)
next
  case alive: True
  show ?thesis
  proof (cases r)
    case Recv_error
    with alive worker_finish_frame [of "Loop_raise OSError" s] show ?thesis
      by (simp add: worker_recv_def)
  next
    case (Data d)
    show ?thesis
    proof (cases "stream_message d s")
      case (Continue s1)
      with stream_message_frame [of d s s1] alive Data show ?thesis
        by (simp add: worker_recv_def)
    next
      case (Break s1)
      with stream_message_frame [of d s s1] worker_finish_frame [of Loop_break s1] alive Data
      show ?thesis by (auto simp: worker_recv_def)
    next
      case (Raise e s1)
      with stream_message_frame [of d s s1 e] worker_finish_frame [of "Loop_raise e" s1] alive Data
      show ?thesis by (auto simp: worker_recv_def)
    qed
  qed
qed


lemma run_callback_frame:
  "session_cb cb \<Longrightarrow>
   after_queue (run_callback cb s) = after_queue s \<and> advances s (run_callback cb s)"
  by (cases cb) (simp_all add: determine_results_frame advances_same, simp add: advances_def
      split: option.split)


lemma fold_run_callback_frame:
  "list_all session_cb cbs \<Longrightarrow>
   after_queue (fold run_callback cbs s) = after_queue s \<and> advances s (fold run_callback cbs s)"
proof (induction cbs arbitrary: s)
  case Nil
  then show ?case by simp
next
  case (Cons cb cbs)
  from Cons.prems have cb: "session_cb cb" and cbs: "list_all session_cb cbs" by simp_all
  from run_callback_frame [OF cb, of s] Cons.IH [OF cbs, of "run_callback cb s"]
  show ?case by (auto intro: advances_trans)
qed


lemma run_pending_frame:
  "quiet s \<Longrightarrow> after_queue (run_pending s) = [] \<and> advances s (run_pending s)"
  using fold_run_callback_frame [of "after_queue s" "s\<lparr>after_queue := []\<rparr>"]
  by (auto simp: run_pending_def quiet_def intro: advances_cong [of "s\<lparr>after_queue := []\<rparr>" s])


lemma session_step_frame:
  assumes "quiet s"
  shows "quiet (session_step ev s) \<and> advances s (session_step ev s)"
proof (cases ev)
  case (Ev_rps_chosen v)
  with assms event_rps_chosen_frame [where v = v and s = s] show ?thesis by (simp add: quiet_def)
next
  case (Ev_chat m)
  with assms show ?thesis by (simp add: quiet_def advances_same)
next
  case (Ev_disconnect scope answer)
  with assms show ?thesis by (simp add: quiet_def advances_same)
next
  case (Ev_exit answer)
  with assms show ?thesis by (simp add: quiet_def advances_same on_exit_def)
next
  case (Ev_recv r)
  from worker_recv_frame [of r s] assms have q: "quiet (worker_recv r s)"
    and a: "advances s (worker_recv r s)"
    by (auto simp: quiet_def advances_same)
  from run_pending_frame [OF q] a Ev_recv show ?thesis
    by (auto simp: quiet_def intro: advances_trans)
qed


lemma session_run_frame:
  "quiet s \<Longrightarrow> quiet (session_run evs s) \<and> advances s (session_run evs s)"
proof (induction evs arbitrary: s)
  case Nil
  then show ?case by (simp add: session_run_def)
next
  case (Cons ev evs)
  from session_step_frame [OF Cons.prems, of ev]
  have q: "quiet (session_step ev s)" and a: "advances s (session_step ev s)" by simp_all
  from Cons.IH [OF q] a show ?case
    by (auto simp: session_run_def intro: advances_trans)
qed


lemma session_run_snoc:
  "session_run (evs @ [ev]) s = session_step ev (session_run evs s)"
  by (simp add: session_run_def)



lemma network_connected_round [simp]:
  "current_round (state_of (network_connected peer_ip s)) = Some 1"
  "total_rounds (state_of (network_connected peer_ip s)) = total_rounds s"
  "after_queue (state_of (network_connected peer_ip s)) = after_queue s"
  by (simp_all add: network_connected_def Let_def split: option.split)

lemma quiet_connected: "quiet s \<Longrightarrow> quiet (state_of (network_connected peer_ip s))"
  by (simp add: quiet_def)

lemma session_bounds:
  assumes "quiet s"
  shows "case current_round (session_run evs (state_of (network_connected peer_ip s))) of
           None \<Rightarrow> True
         | Some c \<Rightarrow> 1 \<le> c \<and> (\<forall>t. total_rounds s = Some t \<and> 1 \<le> t \<longrightarrow> c \<le> t)"
  using session_run_frame [OF quiet_connected [OF assms], of evs peer_ip]
  by (auto simp: advances_def split: option.splits)

lemma session_monotone:
  assumes "quiet s"
    and "current_round (session_run evs (state_of (network_connected peer_ip s))) = Some c"
    and "current_round (session_run (evs @ [ev]) (state_of (network_connected peer_ip s))) = Some c'"
  shows "c \<le> c'"
proof -
  let ?s1 = "session_run evs (state_of (network_connected peer_ip s))"
  from session_run_frame [OF quiet_connected [OF assms(1)], of evs peer_ip]
  have "quiet ?s1" by simp
  from session_step_frame [OF this, of ev] assms(2,3) show ?thesis
    by (simp add: session_run_snoc advances_def)
qed

lemma score_round_ok:
  assumes "choices_item (player_choice r) = Some a" "choices_item (opponent_choice r) = Some b"
    "user_profile r = Some p"
  shows "\<exists>p' m. score_round r =
           Inr (r\<lparr>user_profile := Some p',
                  trace := trace r @ [Stats_label (wins p') (loses p') (ties p'),
                                      Main_textbox (Ascii_art m) ''system_chat'']\<rparr>)"
  using assms
  apply (simp add: score_round_def Let_def and_then_def update_profile_stats_def
      network_chat_def emit_def split del: if_split cong: option.case_cong)
  apply (rule exI, rule exI, rule refl)
  done

lemma determine_results_scored:
  assumes "choices_item (player_choice r) = Some a" "choices_item (opponent_choice r) = Some b"
    "user_profile r = Some p"
  shows "\<exists>r2. determine_results r = next_round r2 \<and> current_round r2 = current_round r
          \<and> total_rounds r2 = total_rounds r \<and> player_choice r2 = player_choice r
          \<and> opponent_choice r2 = opponent_choice r
          \<and> server_thread_alive r2 = server_thread_alive r
          \<and> client_connected r2 = client_connected r
          \<and> (\<forall>k m. Send k m \<in> set (trace r2) \<longrightarrow> Send k m \<in> set (trace r))"
proof -
  from score_round_ok [OF assms] obtain p' m where
    "score_round r =
           Inr (r\<lparr>user_profile := Some p',
                  trace := trace r @ [Stats_label (wins p') (loses p') (ties p'),
                                      Main_textbox (Ascii_art m) ''system_chat'']\<rparr>)" by blast
  then show ?thesis
    by (intro exI [of _ "r\<lparr>user_profile := Some p',
                  trace := trace r @ [Stats_label (wins p') (loses p') (ties p'),
                                      Main_textbox (Ascii_art m) ''system_chat'']\<rparr>"])
      (simp add: determine_results_def and_then_def)
qed

lemma quiet_examples [simp]: "quiet (hosting t)" "quiet (joining t)"
  by (simp_all add: quiet_def example_defs)

subsection \<open>What a local disconnect sends\<close>









subsection \<open>The listening loop\<close>

lemma count_emit [simp]:
  "acks (emit e s) = acks s + (if is_ack e then 1 else 0)"
  "launches (emit e s) = launches s"
  "notifications (emit e s) = notifications s"
  "closes k (emit e s) = closes k s + (if e = Close k then 1 else 0)"
  by (simp_all add: acks_def launches_def notifications_def closes_def)

lemma count_schedule [simp]:
  "acks (schedule cb s) = acks s"
  "launches (schedule cb s) = launches s + (if cb = Cb_launch_server then 1 else 0)"
  "notifications (schedule cb s) = notifications s + (if cb = Cb_network_disconnected then 1 else 0)"
  "closes k (schedule cb s) = closes k s"
  by (simp_all add: acks_def launches_def notifications_def closes_def)

lemma startswith_other:
  assumes "startswith data p" "p \<noteq> []" "q \<noteq> []" "hd p \<noteq> hd q"
  shows "\<not> startswith data q"
proof
  assume "startswith data q"
  from startswith_D [OF assms(1)] startswith_D [OF this] assms(2,3,4)
  show False by (cases p; cases q; cases data; auto)
qed

lemma connect_not_other:
  assumes "startswith data ''CONNECT''"
  shows "\<not> startswith data ''LOOKUP''" "data \<noteq> ''DISCONNECT''"
  using startswith_other [OF assms, of "''LOOKUP''"] startswith_other [OF assms, of "''DISCONNECT''"]
  by auto

lemma listen_message_connect:
  "startswith data ''CONNECT'' \<Longrightarrow>
   listen_message data addr s =
     (case connect_part data addr s of Continue s2 \<Rightarrow> Continue s2 | other \<Rightarrow> other)"
  by (auto simp: listen_message_def lookup_part_def disconnect_part_def connect_not_other
      split: step.split)

lemma reply_not_ack: "xs @ CHR '','' # ys \<noteq> ''ACK''"
proof
  assume "xs @ CHR '','' # ys = ''ACK''"
  then have "CHR '','' \<in> set ''ACK''" by (metis in_set_conv_decomp)
  then show False by simp
qed

lemma listen_message_counts:
  "listen_message data addr s = Continue s1 \<Longrightarrow> acks s1 = acks s \<and> launches s1 = launches s"
  "listen_message data addr s = Raise e s1 \<Longrightarrow> acks s1 = acks s \<and> launches s1 = launches s"
  "listen_message data addr s = Break s1 \<Longrightarrow>
     acks s \<le> acks s1 \<and> acks s1 \<le> acks s + 1
     \<and> launches s1 = launches s + (acks s1 - acks s)"
  by (auto simp: listen_message_def lookup_part_def connect_part_def disconnect_part_def
      acks_def launches_def Let_def reply_not_ack split: if_splits option.splits step.splits)

lemma listen_loop_counts:
  "acks (snd (listen_loop script s)) \<le> acks s + 1
   \<and> launches (snd (listen_loop script s)) = launches s + (acks (snd (listen_loop script s)) - acks s)
   \<and> acks s \<le> acks (snd (listen_loop script s))"
proof (induction script s rule: listen_loop.induct)
  case (1 s)
  then show ?case by simp
next
  case (2 ds s)
  then show ?case by simp
next
  case (3 data addr ds s)
  show ?case
  proof (cases "listen_message data addr s")
    case (Continue s1)
    with 3 listen_message_counts(1) [OF Continue] show ?thesis by simp
  next
    case (Break s1)
    with listen_message_counts(3) [OF Break] show ?thesis by auto
  next
    case (Raise e s1)
    with listen_message_counts(2) [OF Raise] show ?thesis by simp
  qed
qed

subsection \<open>The read loop\<close>

lemma count_update [simp]:
  "notifications (s\<lparr>client_connected := b\<rparr>) = notifications s"
  "closes k (s\<lparr>client_connected := b\<rparr>) = closes k s"
  "notifications (s\<lparr>opponent_choice := c\<rparr>) = notifications s"
  "closes k (s\<lparr>opponent_choice := c\<rparr>) = closes k s"
  by (simp_all add: notifications_def closes_def)









lemma example_counts [simp]:
  "notifications (hosting t) = 0" "notifications (joining t) = 0"
  "closes k (hosting t) = 0" "closes k (joining t) = 0"
  "allow_gui_update (hosting t)" "allow_gui_update (joining t)"
  "user_profile (joining t) = Some alice"
  by (simp_all add: notifications_def closes_def example_defs)

subsection \<open>Discovery\<close>

lemma other_prefix_D:
  assumes "data \<noteq> []" "\<not> startswith data ''DISCONNECT''" "\<not> startswith data ''CHAT''"
    "\<not> startswith data ''GAME''"
  shows "stream_message data s = Continue s"
  using assms by (simp add: stream_message_def chat_part_def game_part_def)

lemma collect_in_time:
  "list_all (in_time timeout) arrivals \<Longrightarrow>
   \<exists>servers'. collect timeout arrivals servers clock
      = (Loop_break, servers', clock + sum_list (map wait_of arrivals) + timeout)"
proof (induction arrivals arbitrary: servers clock)
  case Nil
  then show ?case by simp
next
  case (Cons a arrivals)
  then obtain w data addr payload where a: "a = Arrive w data addr" "w < timeout"
    "decode_utf8 data = Some payload"
    by (cases a) auto
  from Cons.prems have r: "list_all (in_time timeout) arrivals" by simp
  show ?case
  proof (cases "length (split_comma payload) = 3")
    case True
    with a Cons.IH [OF r, of "servers @ [(fst addr, split_comma payload ! 0,
        split_comma payload ! 1, split_comma payload ! 2)]" "clock + w"]
    show ?thesis by (simp add: add.assoc Let_def)
  next
    case False
    with a Cons.IH [OF r, of servers "clock + w"]
    show ?thesis by (simp add: add.assoc Let_def)
  qed
qed

lemma collect_clock:
  "collect timeout arrivals servers clock = (Loop_break, servers', clock') \<Longrightarrow>
   clock + timeout \<le> clock'"
proof (induction arrivals arbitrary: servers clock)
  case Nil
  then show ?case by simp
next
  case (Cons x arrivals)
  show ?case
  proof (cases x)
    case (Fail w)
    with Cons.prems show ?thesis by (simp split: if_splits)
  next
    case (Arrive w data addr)
    show ?thesis
    proof (cases "w < timeout")
      case False
      with Arrive Cons.prems show ?thesis by simp
    next
      case True
      show ?thesis
      proof (cases "decode_utf8 data")
        case None
        with True Arrive Cons.prems show ?thesis by simp
      next
        case (Some payload)
        show ?thesis
        proof (cases "length (split_comma payload) = 3")
          case three: True
          with True Arrive Some Cons.prems
          have "collect timeout arrivals
                  (servers @ [(fst addr, split_comma payload ! 0, split_comma payload ! 1,
                               split_comma payload ! 2)]) (clock + w)
                = (Loop_break, servers', clock')"
            by (simp add: Let_def)
          from Cons.IH [OF this] show ?thesis by simp
        next
          case False
          with True Arrive Some Cons.prems
          have "collect timeout arrivals servers (clock + w) = (Loop_break, servers', clock')"
            by (simp add: Let_def)
          from Cons.IH [OF this] show ?thesis by simp
        qed
      qed
    qed
  qed
qed

subsection \<open>The worker thread and the round counter\<close>

lemma next_round_alive [simp]:
  "server_thread_alive (state_of (next_round s)) = server_thread_alive s"
  "client_thread_alive (state_of (next_round s)) = client_thread_alive s"
  by (simp_all add: next_round_def split: option.split)



lemma dropout_alive [simp]:
  "server_thread_alive (state_of (dropout_resolution a s)) = server_thread_alive s"
  "client_thread_alive (state_of (dropout_resolution a s)) = client_thread_alive s"
  by (simp_all add: dropout_resolution_def Let_def update_profile_stats_def split: option.split)

lemma network_disconnected_alive [simp]:
  "server_thread_alive (network_disconnected s) = server_thread_alive s"
  "client_thread_alive (network_disconnected s) = client_thread_alive s"
  by (simp_all add: network_disconnected_def Let_def update_game_state_def update_lobby_state_def)

lemma leave_alive [simp]:
  "server_thread_alive (leave scope s) = server_thread_alive s"
  "client_thread_alive (leave scope s) = client_thread_alive s"
  by (simp_all add: leave_def event_logout_def save_profile_stats_def)

lemma and_then_leave_alive [simp]:
  "server_thread_alive (state_of (and_then r (\<lambda>s2. Inr (leave scope s2))))
     = server_thread_alive (state_of r)"
  "client_thread_alive (state_of (and_then r (\<lambda>s2. Inr (leave scope s2))))
     = client_thread_alive (state_of r)"
  by (cases r; auto simp: and_then_def)+

lemma event_disconnect_alive [simp]:
  "server_thread_alive (state_of (event_disconnect scope answer s)) = server_thread_alive s"
  "client_thread_alive (state_of (event_disconnect scope answer s)) = client_thread_alive s"
  by (simp_all add: event_disconnect_def Let_def stop_listen_def split: option.split)

lemma event_chat_alive [simp]:
  "server_thread_alive (event_chat m s) = server_thread_alive s"
  "client_thread_alive (event_chat m s) = client_thread_alive s"
  by (simp_all add: event_chat_def)













lemma game_cb_session_cb: "game_cb cb \<Longrightarrow> session_cb cb"
  by (cases cb) simp_all

lemma in_game_queue [simp]: "in_game (s\<lparr>after_queue := q\<rparr>) = in_game s"
  by (simp add: in_game_def)



lemma network_connected_alive [simp]:
  "server_thread_alive (state_of (network_connected peer_ip s)) = server_thread_alive s"
  "client_thread_alive (state_of (network_connected peer_ip s)) = client_thread_alive s"
  by (simp_all add: network_connected_def Let_def update_game_state_def update_lobby_state_def
      split: option.split)



lemma accepted_host_fields [simp]:
  "user_profile (accepted_host t) = Some alice"
  "current_round (accepted_host t) = None"
  "total_rounds (accepted_host t) = Some t"
  "server_thread_alive (accepted_host t)"
  "\<not> client_thread_alive (accepted_host t)"
  "\<not> broadcast_thread_alive (accepted_host t)"
  "client_connected (accepted_host t)"
  "trace (accepted_host t) = []"
  "after_queue (accepted_host t) = [Cb_network_connected ''192.168.1.20'']"
  by (simp_all add: example_defs schedule_def)


lemma launched_host_counts [simp]:
  "notifications (launched_host t) = 0" "closes k (launched_host t) = 0"
  "allow_gui_update (launched_host t)"
  by (simp_all add: notifications_def closes_def example_defs)

section \<open>Round resolution\<close>

text \<open>
  C1. For every pair of choices among Rock, Paper and Scissors, \<open>determine_results\<close> takes
  \<open>delta = (local - remote) mod 3\<close> under Rock=0, Paper=1, Scissors=2 and adds one to the ties
  counter when delta is 0, to the wins counter when it is 1 and to the loses counter when it
  is 2, the rest of the profile staying as it was; so a tie is scored exactly when the two
  choices are equal, a win exactly for Rock against Scissors, Paper against Rock and Scissors
  against Paper, and a loss exactly for the reverse pairs.
\<close>

theorem determine_results_scoring:
  assumes "l \<in> {''Rock'', ''Paper'', ''Scissors''}"
    and "r \<in> {''Rock'', ''Paper'', ''Scissors''}"
    and "player_choice s = Some l" and "opponent_choice s = Some r"
    and "user_profile s = Some p"
  shows "\<exists>a b delta. choices l = Some a \<and> choices r = Some b \<and> delta = (a - b) mod 3
           \<and> a = (if l = ''Rock'' then 0 else if l = ''Paper'' then 1 else 2)
           \<and> b = (if r = ''Rock'' then 0 else if r = ''Paper'' then 1 else 2)
           \<and> user_profile (state_of (determine_results s)) =
               Some (if delta = 0 then p\<lparr>ties := ties p + 1\<rparr>
                     else if delta = 1 then p\<lparr>wins := wins p + 1\<rparr>
                     else p\<lparr>loses := loses p + 1\<rparr>)
           \<and> delta \<in> {0, 1, 2}
           \<and> (delta = 0 \<longleftrightarrow> l = r)
           \<and> (delta = 1 \<longleftrightarrow>
                (l, r) \<in> {(''Rock'', ''Scissors''), (''Paper'', ''Rock''), (''Scissors'', ''Paper'')})
           \<and> (delta = 2 \<longleftrightarrow>
                (l, r) \<in> {(''Scissors'', ''Rock''), (''Rock'', ''Paper''), (''Paper'', ''Scissors'')})"
proof -
  have pc: "choices_item (player_choice s) = choices l"
    and oc: "choices_item (opponent_choice s) = choices r"
    by (simp_all add: choices_item_def assms)
  note prof = determine_results_profile [OF _ _ assms(5), unfolded pc oc]
  from assms(1) consider "l = ''Rock''" | "l = ''Paper''" | "l = ''Scissors''" by blast
  then show ?thesis
  proof cases
    case 1
    from assms(2) consider "r = ''Rock''" | "r = ''Paper''" | "r = ''Scissors''" by blast
    then show ?thesis
    proof cases
      case 1 with \<open>l = ''Rock''\<close> show ?thesis
        using prof [of 0 0] by (simp add: choices_simps)
    next
      case 2 with \<open>l = ''Rock''\<close> show ?thesis
        using prof [of 0 1] by (simp add: choices_simps)
    next
      case 3 with \<open>l = ''Rock''\<close> show ?thesis
        using prof [of 0 2] by (simp add: choices_simps)
    qed
  next
    case 2
    from assms(2) consider "r = ''Rock''" | "r = ''Paper''" | "r = ''Scissors''" by blast
    then show ?thesis
    proof cases
      case 1 with \<open>l = ''Paper''\<close> show ?thesis
        using prof [of 1 0] by (simp add: choices_simps)
    next
      case 2 with \<open>l = ''Paper''\<close> show ?thesis
        using prof [of 1 1] by (simp add: choices_simps)
    next
      case 3 with \<open>l = ''Paper''\<close> show ?thesis
        using prof [of 1 2] by (simp add: choices_simps)
    qed
  next
    case 3
    from assms(2) consider "r = ''Rock''" | "r = ''Paper''" | "r = ''Scissors''" by blast
    then show ?thesis
    proof cases
      case 1 with \<open>l = ''Scissors''\<close> show ?thesis
        using prof [of 2 0] by (simp add: choices_simps)
    next
      case 2 with \<open>l = ''Scissors''\<close> show ?thesis
        using prof [of 2 1] by (simp add: choices_simps)
    next
      case 3 with \<open>l = ''Scissors''\<close> show ?thesis
        using prof [of 2 2] by (simp add: choices_simps)
    qed
  qed
qed

theorem determine_results_scoring_witness:
  "user_profile (state_of (determine_results
      ((connected (hosting 3))\<lparr>player_choice := Some ''Rock'',
                               opponent_choice := Some ''Scissors''\<rparr>)))
   = Some (alice\<lparr>wins := 5\<rparr>)"
proof -
  let ?s = "(connected (hosting 3))\<lparr>player_choice := Some ''Rock'',
                                     opponent_choice := Some ''Scissors''\<rparr>"
  have h1: "''Rock'' \<in> {''Rock'', ''Paper'', ''Scissors''}" by simp
  have h2: "''Scissors'' \<in> {''Rock'', ''Paper'', ''Scissors''}" by simp
  have h3: "player_choice ?s = Some ''Rock''" by simp
  have h4: "opponent_choice ?s = Some ''Scissors''" by simp
  have h5: "user_profile ?s = Some alice"
    by (simp add: example_defs network_connected_def Let_def update_lobby_state_def
        update_game_state_def)
  from determine_results_scoring [OF h1 h2 h3 h4 h5]
  show ?thesis by (simp add: alice_def)
qed

section \<open>Dropout forfeiture\<close>

text \<open>
  C2. With \<open>current_round = c\<close> and \<open>total_rounds = t\<close>, \<open>dropout_resolution\<close> forfeits
  \<open>t - (c - 1)\<close> rounds: for the actor "player" (the side that saw the peer leave, which is
  what a \<open>DISCONNECTmid_game\<close> message makes the read loop ask for) exactly that many wins
  are added to the profile and nothing else changes in it; for the actor "quitter" exactly
  that many loses are added and nothing else. One event changes one counter, never both.
\<close>

theorem dropout_resolution_forfeit:
  assumes "current_round s = Some c" and "total_rounds s = Some t"
    and "user_profile s = Some p"
  shows "(actor = ''player'' \<longrightarrow>
            (\<exists>s'. dropout_resolution actor s = Inr s'
               \<and> user_profile s' = Some (p\<lparr>wins := wins p + (t - (c - 1))\<rparr>)))
       \<and> (actor = ''quitter'' \<longrightarrow>
            (\<exists>s'. dropout_resolution actor s = Inr s'
               \<and> user_profile s' = Some (p\<lparr>loses := loses p + (t - (c - 1))\<rparr>)))
       \<and> stream_message (''DISCONNECT'' @ ''mid_game'') s
           = Break (schedule (Cb_dropout_resolution ''player'') s)"
  using assms
  by (simp add: dropout_resolution_def update_profile_stats_def Let_def stream_message_def
      decode_utf8_def)

theorem dropout_resolution_forfeit_witness:
  "user_profile (state_of (dropout_resolution ''player''
      ((connected (hosting 5))\<lparr>current_round := Some 3\<rparr>))) = Some (alice\<lparr>wins := 7\<rparr>)
   \<and> user_profile (state_of (dropout_resolution ''quitter''
      ((connected (hosting 5))\<lparr>current_round := Some 3\<rparr>))) = Some (alice\<lparr>loses := 5\<rparr>)"
proof -
  let ?s = "(connected (hosting 5))\<lparr>current_round := Some 3\<rparr>"
  have h1: "current_round ?s = Some 3" by simp
  have h2: "total_rounds ?s = Some 5"
    by (simp add: example_defs network_connected_def Let_def update_lobby_state_def
        update_game_state_def)
  have h3: "user_profile ?s = Some alice"
    by (simp add: example_defs network_connected_def Let_def update_lobby_state_def
        update_game_state_def)
  from dropout_resolution_forfeit [OF h1 h2 h3, of "''player''"]
    dropout_resolution_forfeit [OF h1 h2 h3, of "''quitter''"]
  show ?thesis by (auto simp: alice_def)
qed

section \<open>When a round is resolved\<close>



section \<open>A second local choice in a round\<close>

text \<open>
  C6, as the code has it. \<open>event_rps_chosen\<close> does not look at a pending local choice: its
  result is the same whatever choice was pending. While the remote choice is absent it
  returns normally, with the submitted value stored as the local choice in place of the
  pending one, and with the choice button disabled; that disabled button is what keeps a
  second submission out of a round.
\<close>

theorem event_rps_chosen_overwrites:
  "event_rps_chosen v (s\<lparr>player_choice := pending\<rparr>) = event_rps_chosen v s
   \<and> (\<not> truthy_str (opponent_choice s) \<longrightarrow>
        \<not> isl (event_rps_chosen v s)
        \<and> player_choice (state_of (event_rps_chosen v s)) = Some v
        \<and> game_rps_button_state (state_of (event_rps_chosen v s)) = ''disabled'')"
  by (simp add: event_rps_chosen_waiting) (simp add: event_rps_chosen_def)

theorem event_rps_chosen_overwrites_witness:
  "player_choice (state_of (event_rps_chosen ''Rock'' (connected (joining 3)))) = Some ''Rock''
   \<and> \<not> truthy_str (opponent_choice (state_of (event_rps_chosen ''Rock'' (connected (joining 3)))))
   \<and> player_choice (state_of (event_rps_chosen ''Paper''
        (state_of (event_rps_chosen ''Rock'' (connected (joining 3)))))) = Some ''Paper''
   \<and> game_rps_button_state (state_of (event_rps_chosen ''Paper''
        (state_of (event_rps_chosen ''Rock'' (connected (joining 3)))))) = ''disabled''"
proof -
  let ?s = "state_of (event_rps_chosen ''Rock'' (connected (joining 3)))"
  have h0: "player_choice ?s = Some ''Rock''" by (simp add: event_rps_chosen_waiting)
  have h: "\<not> truthy_str (opponent_choice ?s)" by (simp add: event_rps_chosen_waiting)
  from event_rps_chosen_overwrites [where v = "''Paper''" and s = ?s] h h0
  show ?thesis by blast
qed

text \<open>
  C6 as stated fails: with Rock pending on the host, submitting Paper returns normally,
  Paper replaces Rock, and a second \<open>GAME\<close> message is sent.
\<close>

theorem event_rps_chosen_rejects_counterexample:
  "player_choice (state_of (event_rps_chosen ''Rock'' (connected (hosting 3)))) = Some ''Rock''
   \<and> \<not> isl (event_rps_chosen ''Paper''
            (state_of (event_rps_chosen ''Rock'' (connected (hosting 3)))))
   \<and> player_choice (state_of (event_rps_chosen ''Paper''
        (state_of (event_rps_chosen ''Rock'' (connected (hosting 3)))))) = Some ''Paper''
   \<and> trace (state_of (event_rps_chosen ''Paper''
        (state_of (event_rps_chosen ''Rock'' (connected (hosting 3))))))
      = trace (connected (hosting 3)) @
        [Send Server_client_socket ''GAMERock'',
         Main_textbox (Waiting_for (Some ''bob'')) ''system_chat'',
         Send Server_client_socket ''GAMEPaper'',
         Main_textbox (Waiting_for (Some ''bob'')) ''system_chat'']"
  by (simp add: event_rps_chosen_waiting send_peer_def)

section \<open>The round counter within a session\<close>

text \<open>
  C3, as the code has it. \<open>network_connected\<close> sets \<open>current_round\<close> to 1. When
  \<open>total_rounds\<close> is at least 1 at that moment, then after any sequence of events of the
  session \<open>current_round\<close> is between 1 and \<open>total_rounds\<close> as long as it is set. It never
  goes down from one event to the next. \<open>determine_results\<close> on two valid choices with
  \<open>current_round < total_rounds\<close> clears both choices and adds one to \<open>current_round\<close>;
  with \<open>current_round = total_rounds\<close> it leaves \<open>current_round\<close> as it is, and the host
  with its peer connected sends \<open>DISCONNECTgame_complete\<close> last, while a joiner sends
  nothing.
\<close>

theorem round_counter_session:
  "current_round (state_of (network_connected peer_ip s)) = Some 1
   \<and> (quiet s \<and> total_rounds s = Some t \<and> 1 \<le> t \<longrightarrow>
        (\<forall>evs. case current_round (session_run evs (state_of (network_connected peer_ip s))) of
                  None \<Rightarrow> True
                | Some c \<Rightarrow> 1 \<le> c \<and> c \<le> t))
   \<and> (quiet s \<longrightarrow>
        (\<forall>evs ev c c'.
            current_round (session_run evs (state_of (network_connected peer_ip s))) = Some c
            \<and> current_round (session_run (evs @ [ev]) (state_of (network_connected peer_ip s)))
                = Some c'
            \<longrightarrow> c \<le> c'))
   \<and> (choices_item (player_choice r) \<noteq> None \<and> choices_item (opponent_choice r) \<noteq> None
        \<and> user_profile r \<noteq> None \<and> current_round r = Some k \<and> total_rounds r = Some n
        \<longrightarrow>
        (k < n \<longrightarrow>
           (\<exists>r'. determine_results r = Inr r' \<and> current_round r' = Some (k + 1)
              \<and> total_rounds r' = Some n
              \<and> player_choice r' = None \<and> opponent_choice r' = None))
        \<and> (k = n \<longrightarrow>
           (\<exists>r'. determine_results r = Inr r' \<and> current_round r' = Some k
              \<and> total_rounds r' = Some n
              \<and> (server_thread_alive r \<and> client_connected r \<longrightarrow>
                    last (trace r') = Send Server_client_socket ''DISCONNECTgame_complete'')
              \<and> (\<not> server_thread_alive r \<longrightarrow>
                    (\<forall>sk m. Send sk m \<in> set (trace r') \<longrightarrow> Send sk m \<in> set (trace r))))))"
proof (intro conjI impI allI)
  show "current_round (state_of (network_connected peer_ip s)) = Some 1" by simp
next
  fix evs
  assume "quiet s \<and> total_rounds s = Some t \<and> 1 \<le> t"
  with session_bounds [of s evs peer_ip]
  show "case current_round (session_run evs (state_of (network_connected peer_ip s))) of
                  None \<Rightarrow> True
                | Some c \<Rightarrow> 1 \<le> c \<and> c \<le> t"
    by (simp split: option.splits)
next
  fix evs ev c c'
  assume "quiet s"
    and "current_round (session_run evs (state_of (network_connected peer_ip s))) = Some c
            \<and> current_round (session_run (evs @ [ev]) (state_of (network_connected peer_ip s)))
                = Some c'"
  then show "c \<le> c'" using session_monotone [of s evs peer_ip c ev c'] by simp
next
  assume h: "choices_item (player_choice r) \<noteq> None \<and> choices_item (opponent_choice r) \<noteq> None
        \<and> user_profile r \<noteq> None \<and> current_round r = Some k \<and> total_rounds r = Some n"
    and lt: "k < n"
  from h obtain a b p where "choices_item (player_choice r) = Some a"
    "choices_item (opponent_choice r) = Some b" "user_profile r = Some p" by auto
  from determine_results_scored [OF this] obtain r2 where
    r2: "determine_results r = next_round r2" "current_round r2 = current_round r"
      "total_rounds r2 = total_rounds r" by blast
  with h lt show "\<exists>r'. determine_results r = Inr r' \<and> current_round r' = Some (k + 1)
              \<and> total_rounds r' = Some n
              \<and> player_choice r' = None \<and> opponent_choice r' = None"
    by (simp add: next_round_def)
next
  assume h: "choices_item (player_choice r) \<noteq> None \<and> choices_item (opponent_choice r) \<noteq> None
        \<and> user_profile r \<noteq> None \<and> current_round r = Some k \<and> total_rounds r = Some n"
    and eq: "k = n"
  from h obtain a b p where "choices_item (player_choice r) = Some a"
    "choices_item (opponent_choice r) = Some b" "user_profile r = Some p" by auto
  from determine_results_scored [OF this] obtain r2 where
    r2: "determine_results r = next_round r2" "current_round r2 = current_round r"
      "total_rounds r2 = total_rounds r" "server_thread_alive r2 = server_thread_alive r"
      "client_connected r2 = client_connected r"
      "\<forall>k m. Send k m \<in> set (trace r2) \<longrightarrow> Send k m \<in> set (trace r)" by blast
  with h eq show "\<exists>r'. determine_results r = Inr r' \<and> current_round r' = Some k
              \<and> total_rounds r' = Some n
              \<and> (server_thread_alive r \<and> client_connected r \<longrightarrow>
                    last (trace r') = Send Server_client_socket ''DISCONNECTgame_complete'')
              \<and> (\<not> server_thread_alive r \<longrightarrow>
                    (\<forall>sk m. Send sk m \<in> set (trace r') \<longrightarrow> Send sk m \<in> set (trace r)))"
    by (simp add: next_round_def server_stop_def)
qed

theorem round_counter_session_witness:
  "quiet (hosting 3) \<and> total_rounds (hosting 3) = Some 3
   \<and> current_round (session_run [Ev_rps_chosen ''Rock'', Ev_recv (Data ''GAMEScissors'')]
          (connected (hosting 3))) = Some 2
   \<and> (case current_round (session_run [Ev_rps_chosen ''Rock'', Ev_recv (Data ''GAMEScissors'')]
          (connected (hosting 3))) of None \<Rightarrow> True | Some c \<Rightarrow> 1 \<le> c \<and> c \<le> 3)
   \<and> current_round (state_of (determine_results
         ((connected (hosting 3))\<lparr>player_choice := Some ''Rock'',
                                  opponent_choice := Some ''Paper''\<rparr>))) = Some 2
   \<and> current_round (state_of (determine_results
         ((connected (hosting 3))\<lparr>player_choice := Some ''Rock'',
                                  opponent_choice := Some ''Paper'',
                                  current_round := Some 3\<rparr>))) = Some 3
   \<and> last (trace (state_of (determine_results
         ((connected (hosting 3))\<lparr>player_choice := Some ''Rock'',
                                  opponent_choice := Some ''Paper'',
                                  current_round := Some 3\<rparr>))))
       = Send Server_client_socket ''DISCONNECTgame_complete''"
proof -
  let ?evs = "[Ev_rps_chosen ''Rock'', Ev_recv (Data ''GAMEScissors'')]"
  let ?r = "(connected (hosting 3))\<lparr>player_choice := Some ''Rock'',
                                     opponent_choice := Some ''Paper''\<rparr>"
  let ?r3 = "(connected (hosting 3))\<lparr>player_choice := Some ''Rock'',
                                  opponent_choice := Some ''Paper'',
                                  current_round := Some 3\<rparr>"
  have q: "quiet (hosting 3)" and t: "total_rounds (hosting 3) = Some 3"
    by (simp_all add: quiet_def example_defs)
  have e: "current_round (session_run ?evs (connected (hosting 3))) = Some 2"
    by code_simp
  have c: "choices_item (Some ''Rock'') \<noteq> None" "choices_item (Some ''Paper'') \<noteq> None"
    by (simp_all add: choices_item_def choices_simps)
  note a = round_counter_session [where s = "hosting 3" and t = 3 and r = ?r and k = 1
      and n = 3 and peer_ip = "''192.168.1.20''"]
  note b = round_counter_session [where s = "hosting 3" and t = 3 and r = ?r3 and k = 3
      and n = 3 and peer_ip = "''192.168.1.20''"]
  from a q t have "\<forall>evs. case current_round
         (session_run evs (state_of (network_connected ''192.168.1.20'' (hosting 3)))) of
      None \<Rightarrow> True | Some c \<Rightarrow> 1 \<le> c \<and> c \<le> 3"
    by simp
  then have 1: "case current_round (session_run ?evs (connected (hosting 3))) of
      None \<Rightarrow> True | Some c \<Rightarrow> 1 \<le> c \<and> c \<le> 3"
    by (simp only: connected_def)
  from a c have 2: "current_round (state_of (determine_results ?r)) = Some 2" by auto
  from b c have 3: "current_round (state_of (determine_results ?r3)) = Some 3
    \<and> last (trace (state_of (determine_results ?r3)))
       = Send Server_client_socket ''DISCONNECTgame_complete''" by auto
  from q t e 1 2 3 show ?thesis by blast
qed

text \<open>
  C3 as stated fails for a joiner whose list entry offers 0 rounds (the lookup response
  \<open>51515,bob,0\<close>): \<open>event_join\<close> stores 0, \<open>network_connected\<close> sets the round to 1.
\<close>

theorem round_counter_exceeds_counterexample:
  "current_round (connected (joining 0)) = Some 1
   \<and> total_rounds (connected (joining 0)) = Some 0"
  by simp

section \<open>The broadcast listener accepts one connect request\<close>

text \<open>
  C8. On a datagram \<open>CONNECT<ip>,<name>\<close> whose \<open>ip\<close> is the host's own address the
  listening loop stores \<open>name\<close> as the opponent's username, sends \<open>ACK\<close> to the sender,
  hands \<open>launch_server\<close> to the main loop and leaves the loop, whatever datagrams come
  after it. On the datagram \<open>DISCONNECT\<close> it leaves the loop without \<open>ACK\<close> and without
  \<open>launch_server\<close>. Over any sequence of datagrams the loop, and \<open>broadcast_listen\<close>
  around it, send at most one \<open>ACK\<close> and ask for \<open>launch_server\<close> at most once, the
  second exactly when the first.
\<close>

theorem broadcast_listen_one_connect:
  "(startswith data ''CONNECT'' \<and> decode_utf8 (drop 7 data) = Some payload
      \<and> split_comma payload = [requested_ip, name] \<and> requested_ip = local_ip s \<longrightarrow>
      listen_loop (Dgram data addr # rest) s =
        (Some Loop_break,
         schedule Cb_launch_server
           (emit (Send_to ''ACK'' (Some (fst addr), snd addr))
              (s\<lparr>opponent_username := Some name\<rparr>))))
   \<and> listen_loop (Dgram ''DISCONNECT'' addr # rest) s =
        (Some Loop_break, if allow_gui_update s then schedule Cb_network_disconnected s else s)
   \<and> acks (snd (listen_loop script s)) \<le> acks s + 1
   \<and> launches (snd (listen_loop script s)) \<le> launches s + 1
   \<and> launches (snd (listen_loop script s)) - launches s = acks (snd (listen_loop script s)) - acks s
   \<and> (broadcast_listen bound script s = Some s' \<longrightarrow>
        acks s' \<le> acks s + 1 \<and> launches s' \<le> launches s + 1)"
proof (intro conjI impI)
  assume h: "startswith data ''CONNECT'' \<and> decode_utf8 (drop 7 data) = Some payload
      \<and> split_comma payload = [requested_ip, name] \<and> requested_ip = local_ip s"
  then have "connect_part data addr s =
      Break (schedule Cb_launch_server
           (emit (Send_to ''ACK'' (Some (fst addr), snd addr))
              (s\<lparr>opponent_username := Some name\<rparr>)))"
    by (simp add: connect_part_def)
  with h show "listen_loop (Dgram data addr # rest) s =
        (Some Loop_break,
         schedule Cb_launch_server
           (emit (Send_to ''ACK'' (Some (fst addr), snd addr))
              (s\<lparr>opponent_username := Some name\<rparr>)))"
    by (simp add: listen_message_connect)
next
  show "listen_loop (Dgram ''DISCONNECT'' addr # rest) s =
        (Some Loop_break, if allow_gui_update s then schedule Cb_network_disconnected s else s)"
    by (simp add: listen_message_def lookup_part_def connect_part_def disconnect_part_def)
next
  from listen_loop_counts [of script s]
  show "acks (snd (listen_loop script s)) \<le> acks s + 1"
    and "launches (snd (listen_loop script s)) \<le> launches s + 1"
    and "launches (snd (listen_loop script s)) - launches s
          = acks (snd (listen_loop script s)) - acks s"
    by auto
next
  assume b: "broadcast_listen bound script s = Some s'"
  obtain ex s1 where l: "listen_loop script s = (ex, s1)" by (cases "listen_loop script s")
  from listen_loop_counts [of script s] l
  have c: "acks s1 \<le> acks s + 1" "launches s1 \<le> launches s + 1" by auto
  from b l c show "acks s' \<le> acks s + 1" and "launches s' \<le> launches s + 1"
    by (auto simp: broadcast_listen_def split: if_splits option.splits loop_exit.splits)
qed

theorem broadcast_listen_one_connect_witness:
  "startswith ''CONNECT192.168.1.10,bob'' ''CONNECT''
   \<and> listen_loop [Dgram ''CONNECT192.168.1.10,bob'' (''192.168.1.11'', 12121),
                   Dgram ''CONNECT192.168.1.10,carol'' (''192.168.1.12'', 12121)] (offering 3)
      = (Some Loop_break,
         schedule Cb_launch_server
           (emit (Send_to ''ACK'' (Some ''192.168.1.11'', 12121))
              ((offering 3)\<lparr>opponent_username := Some ''bob''\<rparr>)))
   \<and> broadcast_listen True [Dgram ''CONNECT192.168.1.10,bob'' (''192.168.1.11'', 12121),
                   Dgram ''CONNECT192.168.1.10,carol'' (''192.168.1.12'', 12121)] (offering 3)
      = Some (emit (Close Udp_socket) (schedule Cb_launch_server
           (emit (Send_to ''ACK'' (Some ''192.168.1.11'', 12121))
              ((offering 3)\<lparr>opponent_username := Some ''bob''\<rparr>))))
   \<and> acks (emit (Close Udp_socket) (schedule Cb_launch_server
           (emit (Send_to ''ACK'' (Some ''192.168.1.11'', 12121))
              ((offering 3)\<lparr>opponent_username := Some ''bob''\<rparr>)))) \<le> acks (offering 3) + 1"
proof -
  let ?d = "''CONNECT192.168.1.10,bob''"
  let ?rest = "[Dgram ''CONNECT192.168.1.10,carol'' (''192.168.1.12'', 12121)]"
  let ?r = "schedule Cb_launch_server
           (emit (Send_to ''ACK'' (Some ''192.168.1.11'', 12121))
              ((offering 3)\<lparr>opponent_username := Some ''bob''\<rparr>))"
  have h: "startswith ?d ''CONNECT'' \<and> decode_utf8 (drop 7 ?d) = Some ''192.168.1.10,bob''
      \<and> split_comma ''192.168.1.10,bob'' = [''192.168.1.10'', ''bob'']
      \<and> ''192.168.1.10'' = local_ip (offering 3)"
    by (simp add: decode_utf8_def example_defs)
  note a = broadcast_listen_one_connect [where data = ?d and payload = "''192.168.1.10,bob''"
      and requested_ip = "''192.168.1.10''" and name = "''bob''" and s = "offering 3"
      and addr = "(''192.168.1.11'', 12121)" and rest = ?rest and bound = True
      and script = "Dgram ?d (''192.168.1.11'', 12121) # ?rest"
      and s' = "emit (Close Udp_socket) ?r"]
  from a h have 1: "listen_loop (Dgram ?d (''192.168.1.11'', 12121) # ?rest) (offering 3)
      = (Some Loop_break, ?r)" by simp
  then have 2: "broadcast_listen True (Dgram ?d (''192.168.1.11'', 12121) # ?rest) (offering 3)
      = Some (emit (Close Udp_socket) ?r)"
    by (simp add: broadcast_listen_def)
  from a 2 have 3: "acks (emit (Close Udp_socket) ?r) \<le> acks (offering 3) + 1" by blast
  from h 1 2 3 show ?thesis by blast
qed

section \<open>The search for hosts\<close>

text \<open>
  C7, as the code has it. With a broadcast address set, \<open>discover_servers\<close> sends
  \<open>LOOKUP\<close> once, closes its socket once, and shows a dialog only when the collection ended
  with an exception; when it ended with the timeout there is no dialog and at least 5000 ms
  have passed. With no responder (nothing arrives, or the first datagram only after
  5000 ms) it returns the empty list after exactly 5000 ms, without a dialog. The timeout is
  that of each \<open>recvfrom\<close>: when every datagram arrives less than 5000 ms after the call
  that takes it, and decodes, the method returns 5000 ms after the last of them, that is
  after the sum of all the waits plus 5000 ms.
\<close>

theorem discover_servers_timeout:
  "(broadcast_address s = Some a \<longrightarrow>
      (\<exists>servers clock tail.
          discover_servers arrivals s
            = (servers, clock, s\<lparr>trace := trace s @ Send_to ''LOOKUP'' (Some a, broadcast_port s) # tail\<rparr>)
          \<and> (tail = [Close Udp_socket]
               \<or> tail = [Messagebox ''Server Lookup Failed'', Close Udp_socket])
          \<and> (fst (collect 5000 arrivals [] 0) = Loop_break \<longrightarrow>
                tail = [Close Udp_socket] \<and> 5000 \<le> clock)))
   \<and> (broadcast_address s = Some a \<and> (arrivals = [] \<or> 5000 \<le> wait_of (hd arrivals)) \<longrightarrow>
        discover_servers arrivals s
          = ([], 5000, s\<lparr>trace := trace s @ [Send_to ''LOOKUP'' (Some a, broadcast_port s),
                                              Close Udp_socket]\<rparr>))
   \<and> (broadcast_address s = Some a \<and> list_all (in_time 5000) arrivals \<longrightarrow>
        (\<exists>servers.
          discover_servers arrivals s
            = (servers, sum_list (map wait_of arrivals) + 5000,
               s\<lparr>trace := trace s @ [Send_to ''LOOKUP'' (Some a, broadcast_port s),
                                     Close Udp_socket]\<rparr>)))"
proof (intro conjI impI)
  assume a: "broadcast_address s = Some a"
  obtain ex servers clock where c: "collect 5000 arrivals [] 0 = (ex, servers, clock)"
    by (cases "collect 5000 arrivals [] 0")
  show "\<exists>servers clock tail.
          discover_servers arrivals s
            = (servers, clock, s\<lparr>trace := trace s @ Send_to ''LOOKUP'' (Some a, broadcast_port s) # tail\<rparr>)
          \<and> (tail = [Close Udp_socket]
               \<or> tail = [Messagebox ''Server Lookup Failed'', Close Udp_socket])
          \<and> (fst (collect 5000 arrivals [] 0) = Loop_break \<longrightarrow>
                tail = [Close Udp_socket] \<and> 5000 \<le> clock)"
  proof (cases ex)
    case Loop_break
    with c collect_clock [of 5000 arrivals "[]" 0 servers clock] have "5000 \<le> clock" by simp
    with a c Loop_break show ?thesis
      by (intro exI [of _ servers] exI [of _ clock] exI [of _ "[Close Udp_socket]"])
        (simp add: discover_servers_def emit_def)
  next
    case (Loop_raise e)
    with a c show ?thesis
      by (intro exI [of _ servers] exI [of _ clock]
          exI [of _ "[Messagebox ''Server Lookup Failed'', Close Udp_socket]"])
        (simp add: discover_servers_def emit_def)
  qed
next
  assume h: "broadcast_address s = Some a \<and> (arrivals = [] \<or> 5000 \<le> wait_of (hd arrivals))"
  then have "collect 5000 arrivals [] 0 = (Loop_break, [], 5000)"
  proof (cases arrivals)
    case Nil
    then show ?thesis by simp
  next
    case (Cons x xs)
    with h show ?thesis by (cases x) auto
  qed
  with h show "discover_servers arrivals s
          = ([], 5000, s\<lparr>trace := trace s @ [Send_to ''LOOKUP'' (Some a, broadcast_port s),
                                              Close Udp_socket]\<rparr>)"
    by (simp add: discover_servers_def emit_def)
next
  assume h: "broadcast_address s = Some a \<and> list_all (in_time 5000) arrivals"
  with collect_in_time [of 5000 arrivals "[]" 0] obtain servers where
    "collect 5000 arrivals [] 0 = (Loop_break, servers, sum_list (map wait_of arrivals) + 5000)"
    by auto
  with h show "\<exists>servers.
          discover_servers arrivals s
            = (servers, sum_list (map wait_of arrivals) + 5000,
               s\<lparr>trace := trace s @ [Send_to ''LOOKUP'' (Some a, broadcast_port s),
                                     Close Udp_socket]\<rparr>)"
    by (simp add: discover_servers_def emit_def)
qed

theorem discover_servers_timeout_witness:
  "broadcast_address (logged_in alice ''192.168.1.10'') = Some ''192.168.1.255''
   \<and> discover_servers [] (logged_in alice ''192.168.1.10'')
       = ([], 5000, (logged_in alice ''192.168.1.10'')
                      \<lparr>trace := [Send_to ''LOOKUP'' (Some ''192.168.1.255'', 12121),
                                 Close Udp_socket]\<rparr>)
   \<and> list_all (in_time 5000) [Arrive 300 ''51515,bob,3'' (''192.168.1.11'', 12121)]
   \<and> fst (snd (discover_servers [Arrive 300 ''51515,bob,3'' (''192.168.1.11'', 12121)]
                 (logged_in alice ''192.168.1.10''))) = 5300"
proof -
  let ?s = "logged_in alice ''192.168.1.10''"
  let ?one = "[Arrive 300 ''51515,bob,3'' (''192.168.1.11'', 12121)]"
  have a: "broadcast_address ?s = Some ''192.168.1.255''" by (simp add: logged_in_def)
  have t: "trace ?s = []" "broadcast_port ?s = 12121" by (simp_all add: logged_in_def)
  have i: "list_all (in_time 5000) ?one" by (simp add: decode_utf8_def)
  from discover_servers_timeout [where s = ?s and a = "''192.168.1.255''" and arrivals = "[]"] a t
  have 1: "discover_servers [] ?s
       = ([], 5000, ?s\<lparr>trace := [Send_to ''LOOKUP'' (Some ''192.168.1.255'', 12121),
                                 Close Udp_socket]\<rparr>)"
    by simp
  from discover_servers_timeout [where s = ?s and a = "''192.168.1.255''" and arrivals = ?one] a i
  have 2: "fst (snd (discover_servers ?one ?s)) = 5300" by auto
  from a 1 i 2 show ?thesis by blast
qed

text \<open>
  C7 as stated fails: the window is not fixed. Two responses, each 4 seconds after the
  call that receives it, are both collected, the second one 8 seconds after \<open>LOOKUP\<close>,
  and the method returns after 13 seconds.
\<close>

theorem fixed_window_counterexample:
  "fst (discover_servers [Arrive 4000 ''51515,bob,3'' (''192.168.1.11'', 12121),
                          Arrive 4000 ''51515,carol,5'' (''192.168.1.12'', 12121)]
          (logged_in alice ''192.168.1.10''))
     = [(''192.168.1.11'', ''51515'', ''bob'', ''3''),
        (''192.168.1.12'', ''51515'', ''carol'', ''5'')]
   \<and> fst (snd (discover_servers [Arrive 4000 ''51515,bob,3'' (''192.168.1.11'', 12121),
                          Arrive 4000 ''51515,carol,5'' (''192.168.1.12'', 12121)]
          (logged_in alice ''192.168.1.10''))) = 13000"
  by (simp add: discover_servers_def logged_in_def decode_utf8_def)

section \<open>A local disconnect after the connection\<close>




section \<open>Leaving the read loop\<close>




section \<open>Malformed messages\<close>

text \<open>
  C9, as the code has it. A malformed message is dropped without a trace, and the loop
  goes on with what comes next, as long as the bytes the code decodes are UTF-8: a lookup
  response that arrives in time, decodes, and has not exactly 3 comma-separated fields
  leaves the list of servers as it is; a \<open>CONNECT\<close> datagram whose bytes after the prefix
  decode and have not exactly 2 fields leaves the state as it is; a datagram for the
  listener that starts with neither \<open>LOOKUP\<close> nor \<open>CONNECT\<close> and is not \<open>DISCONNECT\<close>
  leaves the state as it is whatever its bytes are; a stream message that is not empty and
  starts with none of \<open>DISCONNECT\<close>, \<open>CHAT\<close>, \<open>GAME\<close> leaves the state as it is (none of
  the last two is ever decoded). A lookup response that arrives in time and is not UTF-8
  is not dropped: \<open>decode\<close> raises, the collection ends there and \<open>discover_servers\<close>
  shows its dialog. A \<open>CONNECT\<close> datagram whose bytes after the prefix are not UTF-8
  is not dropped: \<open>decode\<close> raises, the listening loop ends there and
  \<open>broadcast_listen\<close> shows its dialog and closes the socket.
\<close>

theorem malformed_dropped:
  "(w < timeout \<and> decode_utf8 data = Some payload \<and> length (split_comma payload) \<noteq> 3 \<longrightarrow>
      collect timeout (Arrive w data addr # rest) servers clock
        = collect timeout rest servers (clock + w))
   \<and> (startswith data ''CONNECT'' \<and> decode_utf8 (drop 7 data) = Some payload
        \<and> length (split_comma payload) \<noteq> 2 \<longrightarrow>
      listen_message data addr s = Continue s
      \<and> listen_loop (Dgram data addr # ds) s = listen_loop ds s)
   \<and> (\<not> startswith data ''LOOKUP'' \<and> \<not> startswith data ''CONNECT'' \<and> data \<noteq> ''DISCONNECT''
        \<longrightarrow>
      listen_message data addr s = Continue s
      \<and> listen_loop (Dgram data addr # ds) s = listen_loop ds s)
   \<and> (data \<noteq> [] \<and> \<not> startswith data ''DISCONNECT'' \<and> \<not> startswith data ''CHAT''
        \<and> \<not> startswith data ''GAME'' \<longrightarrow>
      stream_message data s = Continue s
      \<and> read_loop (Data data # rs) s = read_loop rs s)
   \<and> (w < timeout \<and> decode_utf8 data = None \<longrightarrow>
      collect timeout (Arrive w data addr # rest) servers clock
        = (Loop_raise UnicodeDecodeError, servers, clock + w))
   \<and> (w < 5000 \<and> decode_utf8 data = None \<and> broadcast_address s = Some a \<longrightarrow>
      discover_servers (Arrive w data addr # rest) s
        = ([], w, s\<lparr>trace := trace s @ [Send_to ''LOOKUP'' (Some a, broadcast_port s),
                                        Messagebox ''Server Lookup Failed'',
                                        Close Udp_socket]\<rparr>))
   \<and> (startswith data ''CONNECT'' \<and> decode_utf8 (drop 7 data) = None \<longrightarrow>
      listen_loop (Dgram data addr # ds) s = (Some (Loop_raise UnicodeDecodeError), s)
      \<and> broadcast_listen True (Dgram data addr # ds) s
          = Some (s\<lparr>trace := trace s @ [Messagebox ''Hosting Connection Error'',
                                          Close Udp_socket]\<rparr>))"
proof (intro conjI impI)
  assume "w < timeout \<and> decode_utf8 data = Some payload \<and> length (split_comma payload) \<noteq> 3"
  then show "collect timeout (Arrive w data addr # rest) servers clock
        = collect timeout rest servers (clock + w)"
    by simp
next
  assume h: "startswith data ''CONNECT'' \<and> decode_utf8 (drop 7 data) = Some payload
        \<and> length (split_comma payload) \<noteq> 2"
  then show m: "listen_message data addr s = Continue s"
    by (simp add: listen_message_connect connect_part_def)
  then show "listen_loop (Dgram data addr # ds) s = listen_loop ds s" by simp
next
  assume h: "\<not> startswith data ''LOOKUP'' \<and> \<not> startswith data ''CONNECT''
        \<and> data \<noteq> ''DISCONNECT''"
  then show m: "listen_message data addr s = Continue s"
    by (simp add: listen_message_def lookup_part_def connect_part_def disconnect_part_def)
  then show "listen_loop (Dgram data addr # ds) s = listen_loop ds s" by simp
next
  assume h: "data \<noteq> [] \<and> \<not> startswith data ''DISCONNECT'' \<and> \<not> startswith data ''CHAT''
        \<and> \<not> startswith data ''GAME''"
  then show m: "stream_message data s = Continue s" by (simp add: other_prefix_D)
  then show "read_loop (Data data # rs) s = read_loop rs s" by simp
next
  assume "w < timeout \<and> decode_utf8 data = None"
  then show "collect timeout (Arrive w data addr # rest) servers clock
        = (Loop_raise UnicodeDecodeError, servers, clock + w)"
    by simp
next
  assume "w < 5000 \<and> decode_utf8 data = None \<and> broadcast_address s = Some a"
  then show "discover_servers (Arrive w data addr # rest) s
        = ([], w, s\<lparr>trace := trace s @ [Send_to ''LOOKUP'' (Some a, broadcast_port s),
                                        Messagebox ''Server Lookup Failed'',
                                        Close Udp_socket]\<rparr>)"
    by (simp add: discover_servers_def emit_def)
next
  assume h: "startswith data ''CONNECT'' \<and> decode_utf8 (drop 7 data) = None"
  then have "listen_message data addr s = Raise UnicodeDecodeError s"
    by (simp add: listen_message_connect connect_part_def)
  then show l: "listen_loop (Dgram data addr # ds) s = (Some (Loop_raise UnicodeDecodeError), s)"
    by simp
  then show "broadcast_listen True (Dgram data addr # ds) s
          = Some (s\<lparr>trace := trace s @ [Messagebox ''Hosting Connection Error'',
                                          Close Udp_socket]\<rparr>)"
    by (simp add: broadcast_listen_def emit_def)
qed

theorem malformed_dropped_witness:
  "decode_utf8 ''51515,bob'' = Some ''51515,bob'' \<and> length (split_comma ''51515,bob'') \<noteq> 3
   \<and> collect 5000 [Arrive 10 ''51515,bob'' (''192.168.1.11'', 12121),
                    Arrive 20 ''51515,carol,5'' (''192.168.1.12'', 12121)] [] 0
      = (Loop_break, [(''192.168.1.12'', ''51515'', ''carol'', ''5'')], 5030)
   \<and> startswith ''CONNECT192.168.1.10'' ''CONNECT''
   \<and> listen_loop [Dgram ''CONNECT192.168.1.10'' (''192.168.1.11'', 12121)] (offering 3)
      = (None, offering 3)
   \<and> listen_loop [Dgram [CHR 0xFF] (''192.168.1.66'', 12121)] (offering 3)
      = (None, offering 3)
   \<and> read_loop [Data ''HELLO'', Data ''CHAThi''] (connected (hosting 3))
      = (None, schedule (Cb_network_chat (Chat_text ''hi'') ''peer_chat'') (connected (hosting 3)))
   \<and> decode_utf8 [CHR 0xFF] = None
   \<and> fst (discover_servers [Arrive 10 [CHR 0xFF] (''192.168.1.66'', 12121),
                             Arrive 20 ''51515,carol,5'' (''192.168.1.12'', 12121)]
             (logged_in alice ''192.168.1.10'')) = []
   \<and> listen_loop [Dgram (''CONNECT'' @ [CHR 0xFF]) (''192.168.1.66'', 12121),
                   Dgram ''CONNECT192.168.1.10,bob'' (''192.168.1.11'', 12121)] (offering 3)
      = (Some (Loop_raise UnicodeDecodeError), offering 3)
   \<and> collect 5000 [Arrive 10 [CHR 0xFF] (''192.168.1.66'', 12121),
                    Arrive 20 ''51515,carol,5'' (''192.168.1.12'', 12121)] [] 7
      = (Loop_raise UnicodeDecodeError, [], 17)"
proof -
  let ?a = "(''192.168.1.11'', 12121 :: int)"
  let ?e = "(''192.168.1.66'', 12121 :: int)"
  let ?rest = "[Arrive 20 ''51515,carol,5'' (''192.168.1.12'', 12121)]"
  let ?ds = "[Dgram ''CONNECT192.168.1.10,bob'' (''192.168.1.11'', 12121)]"
  have d1: "decode_utf8 ''51515,bob'' = Some ''51515,bob''" by (simp add: decode_utf8_def)
  have l1: "length (split_comma ''51515,bob'') \<noteq> 3" by simp
  have d2: "decode_utf8 (drop 7 ''CONNECT192.168.1.10'') = Some ''192.168.1.10''"
    by (simp add: decode_utf8_def)
  have l2: "length (split_comma ''192.168.1.10'') \<noteq> 2" by simp
  have p: "''HELLO'' \<noteq> [] \<and> \<not> startswith ''HELLO'' ''DISCONNECT''
     \<and> \<not> startswith ''HELLO'' ''CHAT'' \<and> \<not> startswith ''HELLO'' ''GAME''" by simp
  have u: "\<not> startswith [CHR 0xFF] ''LOOKUP'' \<and> \<not> startswith [CHR 0xFF] ''CONNECT''
     \<and> [CHR 0xFF] \<noteq> ''DISCONNECT''" by simp
  have d3: "decode_utf8 [CHR 0xFF] = None" by (simp add: decode_utf8_def)
  have d4: "decode_utf8 (drop 7 (''CONNECT'' @ [CHR 0xFF])) = None"
    by (simp add: decode_utf8_def)
  have ba: "broadcast_address (logged_in alice ''192.168.1.10'') = Some ''192.168.1.255''"
    by (simp add: logged_in_def)
  from malformed_dropped [where w = 10 and timeout = 5000 and data = "''51515,bob''"
      and payload = "''51515,bob''" and addr = ?a and rest = ?rest and servers = "[]"
      and clock = 0] d1 l1
  have "collect 5000 (Arrive 10 ''51515,bob'' ?a # ?rest) [] 0 = collect 5000 ?rest [] (0 + 10)"
    by simp
  also have "\<dots> = (Loop_break, [(''192.168.1.12'', ''51515'', ''carol'', ''5'')], 5030)"
    by (simp add: decode_utf8_def)
  finally have 1: "collect 5000 (Arrive 10 ''51515,bob'' ?a # ?rest) [] 0
      = (Loop_break, [(''192.168.1.12'', ''51515'', ''carol'', ''5'')], 5030)" .
  from malformed_dropped [where data = "''CONNECT192.168.1.10''" and payload = "''192.168.1.10''"
      and addr = ?a and s = "offering 3" and ds = "[]"] d2 l2
  have 2: "listen_loop [Dgram ''CONNECT192.168.1.10'' ?a] (offering 3) = (None, offering 3)"
    by simp
  from malformed_dropped [where data = "[CHR 0xFF]" and addr = ?e and s = "offering 3"
      and ds = "[]"] u
  have 3: "listen_loop [Dgram [CHR 0xFF] ?e] (offering 3) = (None, offering 3)"
    by simp
  from malformed_dropped [where data = "''HELLO''" and s = "connected (hosting 3)"
      and rs = "[Data ''CHAThi'']"] p
  have "read_loop [Data ''HELLO'', Data ''CHAThi''] (connected (hosting 3))
      = read_loop [Data ''CHAThi''] (connected (hosting 3))" by simp
  also have "\<dots> = (None, schedule (Cb_network_chat (Chat_text ''hi'') ''peer_chat'')
                          (connected (hosting 3)))"
    by (simp add: stream_message_def chat_part_def game_part_def decode_utf8_def)
  finally have 4: "read_loop [Data ''HELLO'', Data ''CHAThi''] (connected (hosting 3))
      = (None, schedule (Cb_network_chat (Chat_text ''hi'') ''peer_chat'') (connected (hosting 3)))" .
  from malformed_dropped [where w = 10 and data = "[CHR 0xFF]" and addr = ?e and rest = ?rest
      and s = "logged_in alice ''192.168.1.10''" and a = "''192.168.1.255''"] d3 ba
  have 5: "fst (discover_servers (Arrive 10 [CHR 0xFF] ?e # ?rest)
                 (logged_in alice ''192.168.1.10'')) = []"
    by simp
  from malformed_dropped [where data = "''CONNECT'' @ [CHR 0xFF]" and addr = ?e
      and s = "offering 3" and ds = ?ds] d4
  have 6: "listen_loop (Dgram (''CONNECT'' @ [CHR 0xFF]) ?e # ?ds) (offering 3)
      = (Some (Loop_raise UnicodeDecodeError), offering 3)"
    by simp
  from malformed_dropped [where w = 10 and timeout = 5000 and data = "[CHR 0xFF]"
      and addr = ?e and rest = ?rest and servers = "[]" and clock = 7] d3
  have 7: "collect 5000 (Arrive 10 [CHR 0xFF] ?e # ?rest) [] 7
      = (Loop_raise UnicodeDecodeError, [], 17)"
    by simp
  from d1 l1 1 2 3 4 d3 5 6 7 show ?thesis by simp
qed

text \<open>
  C9 as stated fails for a payload that is not UTF-8. The byte \<open>0xFF\<close> is one field, not
  two and not three; \<open>decode\<close> raises on it, the handler around the loop shows its
  dialog, and the loop is over: the host stops listening and never sees the well-formed
  request that follows, and the search ends without the response that follows.
\<close>

theorem malformed_terminates_counterexample:
  "length (split_comma [CHR 0xFF]) \<noteq> 2
   \<and> listen_loop [Dgram (''CONNECT'' @ [CHR 0xFF]) (''192.168.1.66'', 12121),
                   Dgram ''CONNECT192.168.1.10,bob'' (''192.168.1.11'', 12121)] (offering 3)
      = (Some (Loop_raise UnicodeDecodeError), offering 3)
   \<and> broadcast_listen True
         [Dgram (''CONNECT'' @ [CHR 0xFF]) (''192.168.1.66'', 12121),
          Dgram ''CONNECT192.168.1.10,bob'' (''192.168.1.11'', 12121)] (offering 3)
      = Some (emit (Close Udp_socket) (emit (Messagebox ''Hosting Connection Error'') (offering 3)))
   \<and> length (split_comma [CHR 0xFF]) \<noteq> 3
   \<and> collect 5000 [Arrive 10 [CHR 0xFF] (''192.168.1.66'', 12121),
                    Arrive 10 ''51515,bob,3'' (''192.168.1.11'', 12121)] [] 0
      = (Loop_raise UnicodeDecodeError, [], 10)"
  by (simp add: listen_message_def lookup_part_def connect_part_def decode_utf8_def
      broadcast_listen_def)

end
